theory Spec2Isabelle
  imports Main
begin

section \<open>Task access and lifecycle policy of the task-management backend\<close>

text \<open>
  The theory embeds the route handlers of the task routes (\<^verbatim>\<open>src/unnamed/part_004\<close>,
  the Mongoose router that \<^verbatim>\<open>server.js\<close> mounts under \<^verbatim>\<open>/api/tasks\<close>), the user
  deletion route of \<^verbatim>\<open>routes/users.js\<close>, the schemas of \<^verbatim>\<open>models/Task.js\<close> and of
  the task documents (\<^verbatim>\<open>src/unnamed/part_006\<close>), and what the error handler
  (\<^verbatim>\<open>src/unnamed/part_000\<close>) answers to the errors of the upload middleware. Line
  numbers are those of \<^verbatim>\<open>src/unnamed/part_004\<close>.

  Conventions of the embedding.
  \<^item> A MongoDB collection is the list of its records, each carrying its \<^verbatim>\<open>_id\<close>.
    \<^verbatim>\<open>findById\<close> is \<open>find\<close>, an insert with an \<^verbatim>\<open>_id\<close> that is already present
    is refused (the unique index on \<^verbatim>\<open>_id\<close>), \<^verbatim>\<open>save\<close> of a loaded record
    replaces the record with that \<^verbatim>\<open>_id\<close>.
  \<^item> An ObjectId is its 24-digit hexadecimal string in lower case, which is what
    \<^verbatim>\<open>toString\<close> gives. A string of a request is cast before it is compared: the cast
    of a string that passes \<^verbatim>\<open>isMongoId\<close> lowers its digits, so an upper-case spelling
    names the same record.
  \<^item> \<^verbatim>\<open>populate\<close> replaces a reference by the record it names, or by null when that
    record is gone; \<^verbatim>\<open>toString\<close> of a populated reference is the printed record, not
    its identifier.
  \<^item> \<^verbatim>\<open>save\<close> runs the validators of the schema on the document and stores it when
    they pass; a validation error is the exception that the handler's \<^verbatim>\<open>catch\<close> turns
    into a 500.
  \<^item> The upload directory is the list of the paths stored in it.
  \<^item> A handler takes the store (and the clock where it saves a task) and returns the
    reply, the new store and the events it emitted on the socket channel.
  \<^item> \<^verbatim>\<open>req.user\<close> is the user record that the \<^verbatim>\<open>auth\<close> middleware loaded.
\<close>

subsection \<open>Records of the three collections\<close>

type_synonym oid = string

record user =
  user_id :: oid
  email :: string
  role :: string

record task =
  task_id :: oid
  title :: string
  description :: string
  status :: string
  priority :: string
  dueDate :: "int option"
  assignedTo :: "oid option"
  createdBy :: oid
  documents :: "oid list"

record taskDocument =
  doc_id :: oid
  taskId :: oid
  filename :: string
  originalName :: string
  filePath :: string
  fileSize :: int
  mimeType :: string
  uploadedBy :: oid

record store =
  users :: "user list"
  tasks :: "task list"
  taskDocuments :: "taskDocument list"
  uploads :: "string list"

text \<open>A reply is the HTTP status with the \<^verbatim>\<open>message\<close> of a failure, or with the data
  of a success.\<close>

datatype 'a reply = Fail nat string | Ok nat 'a

text \<open>A task after \<^verbatim>\<open>populate('assignedTo', 'email')\<close>, \<^verbatim>\<open>populate('createdBy', 'email')\<close>
  and \<^verbatim>\<open>populate('documents')\<close>: the two references are the identifier and the e-mail
  address of the user, or null; the documents are the records found.\<close>

record task_view =
  v_task :: task
  v_assignedTo :: "(oid \<times> string) option"
  v_createdBy :: "(oid \<times> string) option"
  v_documents :: "taskDocument list"

text \<open>An event names the room it is sent to, and carries the populated task;
  \<^verbatim>\<open>taskAssigned\<close> also carries the e-mail address of the user who assigned it. A user's
  socket joins the room \<^verbatim>\<open>user_<id>\<close> (\<^verbatim>\<open>server.js\<close>, line 43).\<close>

datatype event = TaskAssigned string task_view string | TaskUpdated string task_view

definition room :: "string \<Rightarrow> string" where
  "room x = ''user_'' @ x"

subsection \<open>Identifiers and collection primitives\<close>

definition isHexDigit :: "char \<Rightarrow> bool" where
  "isHexDigit c = (c \<in> set ''0123456789abcdefABCDEF'')"

definition isMongoId :: "string \<Rightarrow> bool" where
  "isMongoId s = (length s = 24 \<and> list_all isHexDigit s)"

text \<open>The cast of a request string to an ObjectId, for a string that passed
  \<^verbatim>\<open>isMongoId\<close>: \<^verbatim>\<open>findById\<close>, \<^verbatim>\<open>findOne\<close>, the assignment to a reference and
  \<^verbatim>\<open>ObjectId.equals\<close> all read the digits without regard to their case.\<close>

definition lowerHex :: "char \<Rightarrow> char" where
  "lowerHex c =
     (if c = CHR ''A'' then CHR ''a'' else if c = CHR ''B'' then CHR ''b''
      else if c = CHR ''C'' then CHR ''c'' else if c = CHR ''D'' then CHR ''d''
      else if c = CHR ''E'' then CHR ''e'' else if c = CHR ''F'' then CHR ''f'' else c)"

definition objectId :: "string \<Rightarrow> oid" where
  "objectId x = map lowerHex x"

definition findUser :: "user list \<Rightarrow> oid \<Rightarrow> user option" where
  "findUser us i = find (\<lambda>u. user_id u = i) us"

definition findTask :: "task list \<Rightarrow> oid \<Rightarrow> task option" where
  "findTask ts i = find (\<lambda>t. task_id t = i) ts"

definition findOneDocument :: "taskDocument list \<Rightarrow> oid \<Rightarrow> oid \<Rightarrow> taskDocument option" where
  "findOneDocument ds d i = find (\<lambda>x. doc_id x = d \<and> taskId x = i) ds"

definition findDocuments :: "taskDocument list \<Rightarrow> oid \<Rightarrow> taskDocument list" where
  "findDocuments ds i = filter (\<lambda>x. taskId x = i) ds"

definition countDocuments :: "taskDocument list \<Rightarrow> oid \<Rightarrow> nat" where
  "countDocuments ds i = length (findDocuments ds i)"

definition deleteMany :: "taskDocument list \<Rightarrow> oid \<Rightarrow> taskDocument list" where
  "deleteMany ds i = filter (\<lambda>x. taskId x \<noteq> i) ds"

fun deleteFirst :: "('a \<Rightarrow> bool) \<Rightarrow> 'a list \<Rightarrow> 'a list" where
  "deleteFirst p [] = []"
| "deleteFirst p (x # xs) = (if p x then xs else x # deleteFirst p xs)"

definition unlink :: "string \<Rightarrow> string list \<Rightarrow> string list" where
  "unlink p fs = removeAll p fs"

subsection \<open>Library functions taken as parameters\<close>

text \<open>
  The date parser of the runtime (\<^verbatim>\<open>new Date(string)\<close>, \<open>None\<close> for an invalid date),
  the ISO 8601 check of the request validator, the regular expression match of the
  database and its cursor (\<^verbatim>\<open>sort\<close>, \<^verbatim>\<open>skip\<close>, \<^verbatim>\<open>limit\<close>) are not part of the
  repository, nor are two texts that the runtime produces: the message of the
  TypeError thrown when a method is called on null, and the printed form of a
  populated reference (its \<^verbatim>\<open>toString\<close>), given its identifier and e-mail address.
  The handlers take them as parameters; a timestamp is a number of milliseconds.
\<close>

record lib =
  isISO8601 :: "string \<Rightarrow> bool"
  parseDate :: "string \<Rightarrow> int option"
  regexTest :: "string \<Rightarrow> string \<Rightarrow> bool"
  cursor :: "string \<Rightarrow> int \<Rightarrow> int \<Rightarrow> int \<Rightarrow> task list \<Rightarrow> task list"
  typeErrorMessage :: string
  inspectRef :: "oid \<Rightarrow> string \<Rightarrow> string"

text \<open>Truthiness of a query or body string: present and not empty.\<close>

definition truthy :: "string option \<Rightarrow> bool" where
  "truthy v = (case v of None \<Rightarrow> False | Some x \<Rightarrow> x \<noteq> [])"

definition optional :: "('a \<Rightarrow> bool) \<Rightarrow> 'a option \<Rightarrow> bool" where
  "optional p v = (case v of None \<Rightarrow> True | Some x \<Rightarrow> p x)"

definition isSpace :: "char \<Rightarrow> bool" where
  "isSpace c = (c \<in> set [CHR '' '', CHR 0x09, CHR 0x0A, CHR 0x0B, CHR 0x0C, CHR 0x0D])"

definition trim :: "string \<Rightarrow> string" where
  "trim s = rev (dropWhile isSpace (rev (dropWhile isSpace s)))"

subsection \<open>\<^verbatim>\<open>populate\<close>\<close>

definition populateRef :: "user list \<Rightarrow> oid \<Rightarrow> (oid \<times> string) option" where
  "populateRef us i = map_option (\<lambda>u. (user_id u, email u)) (findUser us i)"

definition populate :: "store \<Rightarrow> task \<Rightarrow> task_view" where
  "populate s t =
     \<lparr>v_task = t,
      v_assignedTo = Option.bind (assignedTo t) (populateRef (users s)),
      v_createdBy = populateRef (users s) (createdBy t),
      v_documents = List.map_filter (\<lambda>i. find (\<lambda>d. doc_id d = i) (taskDocuments s)) (documents t)\<rparr>"

subsection \<open>Reading one task: \<^verbatim>\<open>router.get('/:id')\<close>\<close>

text \<open>\<^verbatim>\<open>task.assignedTo?.equals(id)\<close>: undefined, hence falsy, when there is no assignee.
  On a populated reference \<^verbatim>\<open>equals\<close> compares the \<^verbatim>\<open>_id\<close> of the record.\<close>

definition optEquals :: "oid option \<Rightarrow> oid \<Rightarrow> bool" where
  "optEquals a i = (case a of None \<Rightarrow> False | Some x \<Rightarrow> x = i)"

text \<open>The task is read with its references populated. The condition of line 288 is
  evaluated from the left: for a principal who is not an admin and not the assignee,
  \<^verbatim>\<open>task.createdBy.equals\<close> is called, which throws when the creator is gone; the
  error handler answers a thrown error with 500 and its message.\<close>

definition get_task :: "lib \<Rightarrow> store \<Rightarrow> user \<Rightarrow> string \<Rightarrow> task_view reply" where
  "get_task L s u pid =
     (if \<not> isMongoId pid then Fail 400 ''Validation failed''
      else case findTask (tasks s) (objectId pid) of
        None \<Rightarrow> Fail 404 ''Task not found''
      | Some t \<Rightarrow>
          let v = populate s t
          in if role u \<noteq> ''admin'' \<and> \<not> optEquals (map_option fst (v_assignedTo v)) (user_id u)
             then (case v_createdBy v of
                     None \<Rightarrow> Fail 500 (typeErrorMessage L)
                   | Some c \<Rightarrow>
                       if \<not> fst c = user_id u
                       then Fail 403 ''Access denied. You can only view tasks assigned to you or created by you.''
                       else Ok 200 v)
             else Ok 200 v)"

subsection \<open>Deleting a task: \<^verbatim>\<open>router.delete('/:id')\<close>\<close>

definition delete_task :: "store \<Rightarrow> user \<Rightarrow> string \<Rightarrow> unit reply \<times> store \<times> event list" where
  "delete_task s u pid =
     (if \<not> isMongoId pid then (Fail 400 ''Validation failed'', s, [])
      else case findTask (tasks s) (objectId pid) of
        None \<Rightarrow> (Fail 404 ''Task not found'', s, [])
      | Some t \<Rightarrow>
          if role u \<noteq> ''admin'' \<and> \<not> createdBy t = user_id u
          then (Fail 403 ''Access denied. Only task creators and admins can delete tasks.'', s, [])
          else
            let docs = findDocuments (taskDocuments s) (task_id t);
                fs = foldl (\<lambda>fs d. unlink (filePath d) fs) (uploads s) docs
            in (Ok 200 (),
                s\<lparr>uploads := fs,
                  taskDocuments := deleteMany (taskDocuments s) (task_id t),
                  tasks := deleteFirst (\<lambda>x. task_id x = objectId pid) (tasks s)\<rparr>,
                []))"

subsection \<open>Listing tasks: \<^verbatim>\<open>router.get('/')\<close>\<close>

record task_query =
  q_page :: int
  q_limit :: int
  q_search :: "string option"
  q_status :: "string option"
  q_priority :: "string option"
  q_assignedTo :: "string option"
  q_createdBy :: "string option"
  q_dueDateFrom :: "string option"
  q_dueDateTo :: "string option"
  q_sortBy :: string
  q_sortOrder :: string

text \<open>The filter object handed to \<^verbatim>\<open>Task.find\<close>: a list of keys, all of which a task
  has to satisfy. An identifier in it is an ObjectId (the requesting user's) or a
  string of the request, which the database casts; a date bound is a parsed date.\<close>

datatype idval = ObjectId oid | Str string

datatype cond =
    AssignedTo idval
  | CreatedBy idval
  | TitleRegex string
  | DescriptionRegex string
  | StatusIs string
  | PriorityIs string
  | DueDate "int option option" "int option option"
  | AnyOf "cond list"
  | AllOf "cond list"

fun castId :: "idval \<Rightarrow> oid option" where
  "castId (ObjectId i) = Some i"
| "castId (Str x) = (if isMongoId x then Some (objectId x) else None)"

fun castable :: "cond \<Rightarrow> bool" where
  "castable (AssignedTo v) = (castId v \<noteq> None)"
| "castable (CreatedBy v) = (castId v \<noteq> None)"
| "castable (DueDate lo hi) = (lo \<noteq> Some None \<and> hi \<noteq> Some None)"
| "castable (AnyOf cs) = list_all castable cs"
| "castable (AllOf cs) = list_all castable cs"
| "castable c = True"

fun matches :: "lib \<Rightarrow> task \<Rightarrow> cond \<Rightarrow> bool" where
  "matches L t (AssignedTo v) = (castId v \<noteq> None \<and> assignedTo t = castId v)"
| "matches L t (CreatedBy v) = (castId v = Some (createdBy t))"
| "matches L t (TitleRegex p) = regexTest L p (title t)"
| "matches L t (DescriptionRegex p) = regexTest L p (description t)"
| "matches L t (StatusIs x) = (status t = x)"
| "matches L t (PriorityIs x) = (priority t = x)"
| "matches L t (DueDate lo hi) =
     (case dueDate t of None \<Rightarrow> False
      | Some d \<Rightarrow> (case lo of Some (Some a) \<Rightarrow> a \<le> d | _ \<Rightarrow> True)
                \<and> (case hi of Some (Some b) \<Rightarrow> d \<le> b | _ \<Rightarrow> True))"
| "matches L t (AnyOf cs) = list_ex (matches L t) cs"
| "matches L t (AllOf cs) = list_all (matches L t) cs"

definition whenSet :: "string option \<Rightarrow> (string \<Rightarrow> 'a list) \<Rightarrow> 'a list" where
  "whenSet v f = (case v of None \<Rightarrow> [] | Some x \<Rightarrow> if x = [] then [] else f x)"

definition dateBound :: "lib \<Rightarrow> string option \<Rightarrow> int option option" where
  "dateBound L v = (case v of None \<Rightarrow> None | Some x \<Rightarrow> if x = [] then None else Some (parseDate L x))"

definition build_query :: "lib \<Rightarrow> user \<Rightarrow> task_query \<Rightarrow> cond list" where
  "build_query L u q =
     (if role u \<noteq> ''admin''
      then [AnyOf [AssignedTo (ObjectId (user_id u)), CreatedBy (ObjectId (user_id u))]]
      else [])
     @ whenSet (q_search q) (\<lambda>x. [AllOf [AnyOf [TitleRegex x, DescriptionRegex x]]])
     @ whenSet (q_status q) (\<lambda>x. [StatusIs x])
     @ whenSet (q_priority q) (\<lambda>x. [PriorityIs x])
     @ whenSet (q_assignedTo q) (\<lambda>x. [AssignedTo (Str x)])
     @ whenSet (q_createdBy q) (\<lambda>x. [CreatedBy (Str x)])
     @ (if truthy (q_dueDateFrom q) \<or> truthy (q_dueDateTo q)
        then [DueDate (dateBound L (q_dueDateFrom q)) (dateBound L (q_dueDateTo q))]
        else [])"

definition findTasks :: "lib \<Rightarrow> cond list \<Rightarrow> task list \<Rightarrow> task list" where
  "findTasks L query ts = filter (\<lambda>t. list_all (matches L t) query) ts"

text \<open>The reply carries the page of tasks, populated, and \<^verbatim>\<open>totalItems\<close>; a string
  that the database cannot cast makes \<^verbatim>\<open>find\<close> throw, which the handler turns into a
  500.\<close>

definition list_tasks :: "lib \<Rightarrow> store \<Rightarrow> user \<Rightarrow> task_query \<Rightarrow> (task_view list \<times> nat) reply" where
  "list_tasks L s u q =
     (let skip = (q_page q - 1) * q_limit q;
          query = build_query L u q
      in if \<not> list_all castable query then Fail 500 ''Error fetching tasks''
         else Ok 200
           (map (populate s)
              (cursor L (q_sortBy q) (if q_sortOrder q = ''asc'' then 1 else - 1) skip (q_limit q)
                 (findTasks L query (tasks s))),
            length (findTasks L query (tasks s))))"

subsection \<open>Uploads: the \<^verbatim>\<open>multer\<close> middleware \<^verbatim>\<open>upload.array('documents', 3)\<close>\<close>

record req_file =
  file_originalname :: string
  file_filename :: string
  file_path :: string
  file_size :: int
  file_mimetype :: string

text \<open>The parts of the request are read in order. The fourth file hits
  \<^verbatim>\<open>limits.files\<close>; \<^verbatim>\<open>fileFilter\<close> refuses a part that is not a PDF, with a plain
  error that the error handler answers with a 500; a file over 10 MB hits
  \<^verbatim>\<open>limits.fileSize\<close>. An aborted upload leaves no file behind.\<close>

fun uploadScan :: "nat \<Rightarrow> req_file list \<Rightarrow> (nat \<times> string) option" where
  "uploadScan k [] = None"
| "uploadScan k (f # fs) =
     (if k = 3 then Some (400, ''Too many files'')
      else if file_mimetype f \<noteq> ''application/pdf'' then Some (500, ''Only PDF files are allowed'')
      else if file_size f > 10 * 1024 * 1024 then Some (400, ''File too large'')
      else uploadScan (Suc k) fs)"

subsection \<open>Schema validation and \<^verbatim>\<open>save\<close>\<close>

text \<open>\<^verbatim>\<open>models/Task.js\<close>: the title is required, between 1 and 255 characters, status
  and priority are enumerations, and the due date validator is
  \<^verbatim>\<open>!date || date > new Date()\<close>, evaluated against the clock at the time of the save.\<close>

definition validateTask :: "int \<Rightarrow> task \<Rightarrow> bool" where
  "validateTask now t =
     (title t \<noteq> [] \<and> length (title t) \<le> 255
      \<and> status t \<in> set [''pending'', ''in_progress'', ''completed'']
      \<and> priority t \<in> set [''low'', ''medium'', ''high'']
      \<and> (case dueDate t of None \<Rightarrow> True | Some d \<Rightarrow> d > now))"

definition validateDocument :: "taskDocument \<Rightarrow> bool" where
  "validateDocument d =
     (filename d \<noteq> [] \<and> length (filename d) \<le> 255
      \<and> originalName d \<noteq> []
      \<and> filePath d \<noteq> [] \<and> length (filePath d) \<le> 500
      \<and> fileSize d \<ge> 1
      \<and> mimeType d = ''application/pdf'')"

definition insertTask :: "int \<Rightarrow> task \<Rightarrow> task list \<Rightarrow> task list option" where
  "insertTask now t ts =
     (if validateTask now t \<and> findTask ts (task_id t) = None then Some (ts @ [t]) else None)"

definition saveTask :: "int \<Rightarrow> task \<Rightarrow> task list \<Rightarrow> task list option" where
  "saveTask now t ts =
     (if validateTask now t then Some (map (\<lambda>x. if task_id x = task_id t then t else x) ts)
      else None)"

definition newDocument :: "oid \<Rightarrow> oid \<Rightarrow> oid \<Rightarrow> req_file \<Rightarrow> taskDocument" where
  "newDocument i tid uid f =
     \<lparr>doc_id = i, taskId = tid, filename = trim (file_filename f),
      originalName = trim (file_originalname f), filePath = trim (file_path f),
      fileSize = file_size f, mimeType = file_mimetype f, uploadedBy = uid\<rparr>"

text \<open>\<^verbatim>\<open>Promise.all(req.files.map(file => new TaskDocument(...).save()))\<close>: every save is
  started; a document that fails its validation (or whose \<^verbatim>\<open>_id\<close> is taken) is not
  stored and rejects the whole promise, the others are stored all the same. The result
  is whether all were stored, the identifiers stored, and the collection. The
  identifier of the document made for the file at position \<open>k\<close> is \<open>gen k\<close>.\<close>

fun saveDocuments ::
  "(nat \<Rightarrow> oid) \<Rightarrow> nat \<Rightarrow> oid \<Rightarrow> oid \<Rightarrow> req_file list \<Rightarrow> taskDocument list
     \<Rightarrow> bool \<times> oid list \<times> taskDocument list" where
  "saveDocuments gen k tid uid [] ds = (True, [], ds)"
| "saveDocuments gen k tid uid (f # fs) ds =
     (let d = newDocument (gen k) tid uid f
      in if validateDocument d \<and> find (\<lambda>x. doc_id x = doc_id d) ds = None
         then (case saveDocuments gen (Suc k) tid uid fs (ds @ [d]) of
                 (ok, ids, ds') \<Rightarrow> (ok, doc_id d # ids, ds'))
         else (case saveDocuments gen (Suc k) tid uid fs ds of
                 (ok, ids, ds') \<Rightarrow> (False, ids, ds')))"

subsection \<open>Creating a task: \<^verbatim>\<open>router.post('/')\<close>\<close>

text \<open>The fields of a multipart body are strings; \<open>None\<close> is a field that is not sent.
  \<open>b_createdBy\<close> is a field a client may send although no handler reads it.\<close>

record task_body =
  b_title :: "string option"
  b_description :: "string option"
  b_status :: "string option"
  b_priority :: "string option"
  b_dueDate :: "string option"
  b_assignedTo :: "string option"
  b_createdBy :: "string option"

definition bodyValid :: "lib \<Rightarrow> task_body \<Rightarrow> bool" where
  "bodyValid L b =
     (optional (\<lambda>x. length x \<le> 2000) (b_description b)
      \<and> optional (\<lambda>x. x \<in> set [''pending'', ''in_progress'', ''completed'']) (b_status b)
      \<and> optional (\<lambda>x. x \<in> set [''low'', ''medium'', ''high'']) (b_priority b)
      \<and> optional (isISO8601 L) (b_dueDate b)
      \<and> optional isMongoId (b_assignedTo b))"

definition createValid :: "lib \<Rightarrow> task_body \<Rightarrow> bool" where
  "createValid L b =
     ((case b_title b of None \<Rightarrow> False | Some x \<Rightarrow> x \<noteq> [] \<and> length x \<le> 255) \<and> bodyValid L b)"

definition orDefault :: "string option \<Rightarrow> string \<Rightarrow> string" where
  "orDefault v d = (case v of None \<Rightarrow> d | Some x \<Rightarrow> if x = [] then d else x)"

text \<open>\<^verbatim>\<open>dueDate ? new Date(dueDate) : undefined\<close>; the outer \<open>None\<close> is an invalid date,
  which the schema cannot cast and which makes the save fail.\<close>

definition dueOf :: "lib \<Rightarrow> string option \<Rightarrow> int option option" where
  "dueOf L v = (case v of None \<Rightarrow> Some None
     | Some x \<Rightarrow> if x = [] then Some None else map_option Some (parseDate L x))"

text \<open>\<^verbatim>\<open>assignedTo: assignedTo || null\<close>, cast by the schema.\<close>

definition assignedOf :: "string option \<Rightarrow> oid option" where
  "assignedOf v = (case v of None \<Rightarrow> None | Some x \<Rightarrow> if x = [] then None else Some (objectId x))"

definition newTask :: "oid \<Rightarrow> user \<Rightarrow> task_body \<Rightarrow> int option \<Rightarrow> task" where
  "newTask i u b due =
     \<lparr>task_id = i,
      title = trim (case b_title b of None \<Rightarrow> [] | Some x \<Rightarrow> x),
      description = trim (case b_description b of None \<Rightarrow> [] | Some x \<Rightarrow> x),
      status = orDefault (b_status b) ''pending'',
      priority = orDefault (b_priority b) ''medium'',
      dueDate = due,
      assignedTo = assignedOf (b_assignedTo b),
      createdBy = user_id u,
      documents = []\<rparr>"

text \<open>Lines 433 to 438 compare the string of the body with \<^verbatim>\<open>req.user._id.toString()\<close>
  and name the room with the string of the body.\<close>

definition create_events :: "user \<Rightarrow> task_body \<Rightarrow> task_view \<Rightarrow> event list" where
  "create_events u b v =
     (case b_assignedTo b of None \<Rightarrow> []
      | Some a \<Rightarrow> if a \<noteq> [] \<and> a \<noteq> user_id u then [TaskAssigned (room a) v (email u)] else [])"

text \<open>The task gets the identifier \<open>gen 0\<close>, the documents \<open>gen 1\<close>, \<open>gen 2\<close>, ...
  \<open>create_documents\<close> is the part of the handler after the first \<^verbatim>\<open>task.save()\<close>,
  \<open>create_handler\<close> the handler, \<open>create_task\<close> the route with its upload
  middleware in front.\<close>

definition create_documents ::
  "int \<Rightarrow> (nat \<Rightarrow> oid) \<Rightarrow> store \<Rightarrow> user \<Rightarrow> task_body \<Rightarrow> task \<Rightarrow> req_file list
     \<Rightarrow> task_view reply \<times> store \<times> event list" where
  "create_documents now gen s2 u b t files =
     (if files = [] then (Ok 201 (populate s2 t), s2, create_events u b (populate s2 t))
      else
        (case saveDocuments gen 1 (task_id t) (user_id u) files (taskDocuments s2) of
           (ok, ids, ds) \<Rightarrow>
             let s3 = s2\<lparr>taskDocuments := ds\<rparr>
             in if \<not> ok then (Fail 500 ''Error creating task'', s3, [])
                else
                  let t' = t\<lparr>documents := ids\<rparr>
                  in (case saveTask now t' (tasks s3) of
                        None \<Rightarrow> (Fail 500 ''Error creating task'', s3, [])
                      | Some ts' \<Rightarrow>
                          (Ok 201 (populate (s3\<lparr>tasks := ts'\<rparr>) t'), s3\<lparr>tasks := ts'\<rparr>,
                           create_events u b (populate (s3\<lparr>tasks := ts'\<rparr>) t')))))"

definition create_handler ::
  "lib \<Rightarrow> int \<Rightarrow> (nat \<Rightarrow> oid) \<Rightarrow> store \<Rightarrow> user \<Rightarrow> task_body \<Rightarrow> req_file list
     \<Rightarrow> task_view reply \<times> store \<times> event list" where
  "create_handler L now gen s1 u b files =
     (if \<not> createValid L b then (Fail 400 ''Validation failed'', s1, [])
      else if truthy (b_assignedTo b)
              \<and> (case b_assignedTo b of None \<Rightarrow> False
                  | Some a \<Rightarrow> findUser (users s1) (objectId a) = None)
      then (Fail 400 ''Assigned user not found'', s1, [])
      else
        (case dueOf L (b_dueDate b) of
           None \<Rightarrow> (Fail 500 ''Error creating task'', s1, [])
         | Some due \<Rightarrow>
             (case insertTask now (newTask (gen 0) u b due) (tasks s1) of
                None \<Rightarrow> (Fail 500 ''Error creating task'', s1, [])
              | Some ts \<Rightarrow>
                  create_documents now gen (s1\<lparr>tasks := ts\<rparr>) u b (newTask (gen 0) u b due) files)))"

definition create_task ::
  "lib \<Rightarrow> int \<Rightarrow> (nat \<Rightarrow> oid) \<Rightarrow> store \<Rightarrow> user \<Rightarrow> task_body \<Rightarrow> req_file list
     \<Rightarrow> task_view reply \<times> store \<times> event list" where
  "create_task L now gen s u b files =
     (case uploadScan 0 files of
        Some (c, m) \<Rightarrow> (Fail c m, s, [])
      | None \<Rightarrow> create_handler L now gen (s\<lparr>uploads := uploads s @ map file_path files\<rparr>) u b files)"

subsection \<open>Updating a task: \<^verbatim>\<open>router.put('/:id')\<close>\<close>

definition updateValid :: "lib \<Rightarrow> string \<Rightarrow> task_body \<Rightarrow> bool" where
  "updateValid L pid b =
     (isMongoId pid \<and> optional (\<lambda>x. x \<noteq> [] \<and> length x \<le> 255) (b_title b) \<and> bodyValid L b)"

text \<open>\<^verbatim>\<open>if (field !== undefined) task.field = ...\<close>\<close>

definition setField :: "'a option \<Rightarrow> ('a \<Rightarrow> task \<Rightarrow> task) \<Rightarrow> task \<Rightarrow> task" where
  "setField v f t = (case v of None \<Rightarrow> t | Some x \<Rightarrow> f x t)"

text \<open>\<^verbatim>\<open>if (dueDate !== undefined) task.dueDate = dueDate ? new Date(dueDate) : null\<close>; the
  outer \<open>None\<close> is an invalid date.\<close>

definition dueUpdate :: "lib \<Rightarrow> string option \<Rightarrow> int option \<Rightarrow> int option option" where
  "dueUpdate L v old =
     (case v of None \<Rightarrow> Some old
      | Some x \<Rightarrow> if x = [] then Some None else map_option Some (parseDate L x))"

text \<open>The assignments of lines 545 to 550. The result is \<open>None\<close> when the due date
  does not parse, which makes the save that follows fail.\<close>

definition applyBody :: "lib \<Rightarrow> task_body \<Rightarrow> task \<Rightarrow> task option" where
  "applyBody L b t =
     map_option
       (\<lambda>due.
          setField (b_assignedTo b)
              (\<lambda>x t. t\<lparr>assignedTo := (if x = ''null'' then None else Some (objectId x))\<rparr>)
            ((setField (b_priority b) (\<lambda>x t. t\<lparr>priority := x\<rparr>)
               (setField (b_status b) (\<lambda>x t. t\<lparr>status := x\<rparr>)
                  (setField (b_description b) (\<lambda>x t. t\<lparr>description := trim x\<rparr>)
                     (setField (b_title b) (\<lambda>x t. t\<lparr>title := trim x\<rparr>) t))))\<lparr>dueDate := due\<rparr>))
       (dueUpdate L (b_dueDate b) (dueDate t))"

text \<open>Lines 588 to 603. \<^verbatim>\<open>oldAssignedTo\<close> was read before the update, from the
  reference: it is the identifier. \<^verbatim>\<open>newAssignedTo\<close> is read after
  \<^verbatim>\<open>task.populate('assignedTo', 'email')\<close> (line 584), from the populated reference: it is
  undefined when the task has no assignee or the assignee is gone, and otherwise the
  printed record, which names the room and is compared with the old identifier.\<close>

definition update_events :: "lib \<Rightarrow> user \<Rightarrow> oid option \<Rightarrow> task_view \<Rightarrow> event list" where
  "update_events L u oldAssignedTo v =
     (case v_assignedTo v of None \<Rightarrow> []
      | Some (i, e) \<Rightarrow>
          let n = inspectRef L i e
          in if n = [] then []
             else (if Some n \<noteq> oldAssignedTo then [TaskAssigned (room n) v (email u)] else [])
                  @ [TaskUpdated (room n) v])"

text \<open>\<open>update_documents\<close> is the part of the handler after the first \<^verbatim>\<open>task.save()\<close>
  (lines 554 to 609), \<open>update_handler\<close> the handler, \<open>update_task\<close> the route with
  its upload middleware in front.\<close>

definition update_documents ::
  "lib \<Rightarrow> int \<Rightarrow> (nat \<Rightarrow> oid) \<Rightarrow> store \<Rightarrow> user \<Rightarrow> oid option \<Rightarrow> task \<Rightarrow> req_file list
     \<Rightarrow> task_view reply \<times> store \<times> event list" where
  "update_documents L now gen s2 u oldAssignedTo t1 files =
     (if files = []
      then (Ok 200 (populate s2 t1), s2, update_events L u oldAssignedTo (populate s2 t1))
      else if countDocuments (taskDocuments s2) (task_id t1) + length files > 3
      then (Fail 400 ''Maximum 3 documents allowed per task'', s2, [])
      else
        (case saveDocuments gen 0 (task_id t1) (user_id u) files (taskDocuments s2) of
           (ok, ids, ds) \<Rightarrow>
             let s3 = s2\<lparr>taskDocuments := ds\<rparr>
             in if \<not> ok then (Fail 500 ''Error updating task'', s3, [])
                else
                  let t2 = t1\<lparr>documents := documents t1 @ ids\<rparr>
                  in (case saveTask now t2 (tasks s3) of
                        None \<Rightarrow> (Fail 500 ''Error updating task'', s3, [])
                      | Some ts' \<Rightarrow>
                          (Ok 200 (populate (s3\<lparr>tasks := ts'\<rparr>) t2), s3\<lparr>tasks := ts'\<rparr>,
                           update_events L u oldAssignedTo (populate (s3\<lparr>tasks := ts'\<rparr>) t2)))))"

text \<open>The permission check of line 520 and the check of lines 533 to 541 that the new
  assignee exists.\<close>

definition updateDenied :: "user \<Rightarrow> task \<Rightarrow> bool" where
  "updateDenied u t =
     (role u \<noteq> ''admin'' \<and> \<not> createdBy t = user_id u
      \<and> (assignedTo t = None \<or> \<not> optEquals (assignedTo t) (user_id u)))"

definition assigneeMissing :: "user list \<Rightarrow> string option \<Rightarrow> bool" where
  "assigneeMissing us v =
     (truthy v \<and> v \<noteq> Some ''null''
      \<and> (case v of None \<Rightarrow> False | Some a \<Rightarrow> findUser us (objectId a) = None))"

definition update_handler ::
  "lib \<Rightarrow> int \<Rightarrow> (nat \<Rightarrow> oid) \<Rightarrow> store \<Rightarrow> user \<Rightarrow> string \<Rightarrow> task_body \<Rightarrow> req_file list
     \<Rightarrow> task_view reply \<times> store \<times> event list" where
  "update_handler L now gen s1 u pid b files =
     (if \<not> updateValid L pid b then (Fail 400 ''Validation failed'', s1, [])
      else
        (case findTask (tasks s1) (objectId pid) of
           None \<Rightarrow> (Fail 404 ''Task not found'', s1, [])
         | Some t \<Rightarrow>
             if updateDenied u t
             then (Fail 403 ''Access denied. Only admins, task creators, and assigned users can update tasks.'', s1, [])
             else if assigneeMissing (users s1) (b_assignedTo b)
             then (Fail 400 ''Assigned user not found'', s1, [])
             else
               (case applyBody L b t of
                  None \<Rightarrow> (Fail 500 ''Error updating task'', s1, [])
                | Some t1 \<Rightarrow>
                    (case saveTask now t1 (tasks s1) of
                       None \<Rightarrow> (Fail 500 ''Error updating task'', s1, [])
                     | Some ts \<Rightarrow>
                         update_documents L now gen (s1\<lparr>tasks := ts\<rparr>) u (assignedTo t) t1 files))))"

definition update_task ::
  "lib \<Rightarrow> int \<Rightarrow> (nat \<Rightarrow> oid) \<Rightarrow> store \<Rightarrow> user \<Rightarrow> string \<Rightarrow> task_body \<Rightarrow> req_file list
     \<Rightarrow> task_view reply \<times> store \<times> event list" where
  "update_task L now gen s u pid b files =
     (case uploadScan 0 files of
        Some (c, m) \<Rightarrow> (Fail c m, s, [])
      | None \<Rightarrow>
          update_handler L now gen (s\<lparr>uploads := uploads s @ map file_path files\<rparr>) u pid b files)"

subsection \<open>Removing a document: \<^verbatim>\<open>router.delete('/:id/documents/:documentId')\<close>\<close>

definition delete_document ::
  "int \<Rightarrow> store \<Rightarrow> user \<Rightarrow> string \<Rightarrow> string \<Rightarrow> unit reply \<times> store \<times> event list" where
  "delete_document now s u pid did =
     (if \<not> (isMongoId pid \<and> isMongoId did) then (Fail 400 ''Validation failed'', s, [])
      else case findTask (tasks s) (objectId pid) of
        None \<Rightarrow> (Fail 404 ''Task not found'', s, [])
      | Some t \<Rightarrow>
        (case findOneDocument (taskDocuments s) (objectId did) (objectId pid) of
           None \<Rightarrow> (Fail 404 ''Document not found'', s, [])
         | Some d \<Rightarrow>
           if role u \<noteq> ''admin'' \<and> \<not> createdBy t = user_id u \<and> \<not> uploadedBy d = user_id u
           then (Fail 403 ''Access denied. You can only delete documents you uploaded or from tasks you created.'', s, [])
           else
             let s1 = s\<lparr>uploads := unlink (filePath d) (uploads s)\<rparr>;
                 t1 = t\<lparr>documents := filter (\<lambda>i. \<not> i = doc_id d) (documents t)\<rparr>
             in (case saveTask now t1 (tasks s1) of
                   None \<Rightarrow> (Fail 500 ''Error deleting document'', s1, [])
                 | Some ts \<Rightarrow>
                     (Ok 200 (),
                      s1\<lparr>tasks := ts,
                         taskDocuments := deleteFirst (\<lambda>x. doc_id x = doc_id d) (taskDocuments s1)\<rparr>,
                      []))))"

subsection \<open>Deleting a user: \<^verbatim>\<open>router.delete('/:id')\<close> of \<^verbatim>\<open>routes/users.js\<close>\<close>

text \<open>The handler of lines 403 to 444. \<^verbatim>\<open>req.user._id.equals(req.params.id)\<close> casts
  the string.\<close>

definition delete_user_handler :: "store \<Rightarrow> user \<Rightarrow> string \<Rightarrow> unit reply \<times> store" where
  "delete_user_handler s u pid =
     (if \<not> isMongoId pid then (Fail 400 ''Validation failed'', s)
      else if user_id u = objectId pid then (Fail 400 ''You cannot delete your own account'', s)
      else (case findUser (users s) (objectId pid) of
              None \<Rightarrow> (Fail 404 ''User not found'', s)
            | Some x \<Rightarrow>
                (Ok 200 (), s\<lparr>users := deleteFirst (\<lambda>y. user_id y = objectId pid) (users s)\<rparr>)))"


subsection \<open>Sequences of requests\<close>

text \<open>A request that writes to the store. The routes that manage users (registration,
  profile and role changes) write the \<^verbatim>\<open>users\<close> collection only and are not part of
  the sources; \<open>SetUsers\<close> stands for any of them.\<close>

datatype request =
    CreateTask int "nat \<Rightarrow> oid" user task_body "req_file list"
  | UpdateTask int "nat \<Rightarrow> oid" user string task_body "req_file list"
  | DeleteTask user string
  | DeleteDocument int user string string
  | DeleteUser user string
  | SetUsers "user list"

fun step :: "lib \<Rightarrow> store \<Rightarrow> request \<Rightarrow> store" where
  "step L s (CreateTask now gen u b files) = fst (snd (create_task L now gen s u b files))"
| "step L s (UpdateTask now gen u pid b files) = fst (snd (update_task L now gen s u pid b files))"
| "step L s (DeleteTask u pid) = fst (snd (delete_task s u pid))"
| "step L s (DeleteDocument now u pid did) = fst (snd (delete_document now s u pid did))"
| "step L s (DeleteUser u pid) = snd (delete_user_handler s u pid)"
| "step L s (SetUsers us) = s\<lparr>users := us\<rparr>"

definition emptyStore :: store where
  "emptyStore = \<lparr>users = [], tasks = [], taskDocuments = [], uploads = []\<rparr>"

definition run :: "lib \<Rightarrow> request list \<Rightarrow> store" where
  "run L rs = foldl (step L) emptyStore rs"

text \<open>What every store reached from the empty one satisfies: identifiers are unique in
  both collections, the document list of a task has no repetition and names document
  records of that task, every document record belongs to a stored task, and no task
  has more than three document records.\<close>

definition consistent :: "store \<Rightarrow> bool" where
  "consistent s =
     (distinct (map task_id (tasks s))
      \<and> distinct (map doc_id (taskDocuments s))
      \<and> (\<forall>t \<in> set (tasks s). distinct (documents t)
            \<and> (\<forall>i \<in> set (documents t). \<exists>d \<in> set (taskDocuments s). doc_id d = i \<and> taskId d = task_id t))
      \<and> (\<forall>d \<in> set (taskDocuments s). \<exists>t \<in> set (tasks s). task_id t = taskId d)
      \<and> (\<forall>i. countDocuments (taskDocuments s) i \<le> 3))"

subsection \<open>The rules in the words of the specification\<close>

definition canView :: "user \<Rightarrow> task \<Rightarrow> bool" where
  "canView p t = (role p = ''admin'' \<or> createdBy t = user_id p \<or> assignedTo t = Some (user_id p))"

definition canDelete :: "user \<Rightarrow> task \<Rightarrow> bool" where
  "canDelete p t = (role p = ''admin'' \<or> createdBy t = user_id p)"

definition canRemoveDocument :: "user \<Rightarrow> task \<Rightarrow> taskDocument \<Rightarrow> bool" where
  "canRemoveDocument p t d =
     (role p = ''admin'' \<or> createdBy t = user_id p \<or> uploadedBy d = user_id p)"

text \<open>The requested filters of the list operation, as its documentation describes them:
  search in title and description, status, priority, assignee, creator, due date from
  and until. A filter that is absent or empty does not restrict.\<close>

definition whenGiven :: "string option \<Rightarrow> (string \<Rightarrow> bool) \<Rightarrow> bool" where
  "whenGiven v p = (case v of None \<Rightarrow> True | Some x \<Rightarrow> x = [] \<or> p x)"

definition passesFilters :: "lib \<Rightarrow> task_query \<Rightarrow> task \<Rightarrow> bool" where
  "passesFilters L q t =
     (whenGiven (q_search q) (\<lambda>x. regexTest L x (title t) \<or> regexTest L x (description t))
      \<and> whenGiven (q_status q) (\<lambda>x. status t = x)
      \<and> whenGiven (q_priority q) (\<lambda>x. priority t = x)
      \<and> whenGiven (q_assignedTo q) (\<lambda>x. assignedTo t = Some (objectId x))
      \<and> whenGiven (q_createdBy q) (\<lambda>x. createdBy t = objectId x)
      \<and> whenGiven (q_dueDateFrom q)
           (\<lambda>x. case (parseDate L x, dueDate t) of (Some a, Some d) \<Rightarrow> a \<le> d | _ \<Rightarrow> False)
      \<and> whenGiven (q_dueDateTo q)
           (\<lambda>x. case (parseDate L x, dueDate t) of (Some b, Some d) \<Rightarrow> d \<le> b | _ \<Rightarrow> False))"

definition succeeded :: "'a reply \<Rightarrow> bool" where
  "succeeded r = (case r of Ok c x \<Rightarrow> True | Fail c m \<Rightarrow> False)"

definition statusOf :: "'a reply \<Rightarrow> nat" where
  "statusOf r = (case r of Ok c x \<Rightarrow> c | Fail c m \<Rightarrow> c)"

subsection \<open>Example data\<close>

text \<open>Three users, an administrator, a task that Alice creates for Bob with two
  documents, the same task with a due date, created in 2000 and due in 2001, without
  a document and with one, and the first task after the administrator has deleted
  Alice's account.\<close>

definition alice :: user where
  "alice = \<lparr>user_id = ''64b000000000000000000001'', email = ''alice@example.com'', role = ''user''\<rparr>"

definition bob :: user where
  "bob = \<lparr>user_id = ''64b000000000000000000002'', email = ''bob@example.com'', role = ''user''\<rparr>"

definition carol :: user where
  "carol = \<lparr>user_id = ''64b000000000000000000003'', email = ''carol@example.com'', role = ''user''\<rparr>"

definition root :: user where
  "root = \<lparr>user_id = ''64b00000000000000000000a'', email = ''root@example.com'', role = ''admin''\<rparr>"

definition quoted :: "string \<Rightarrow> string" where
  "quoted x = [CHR 0x27] @ x @ [CHR 0x27]"

definition lib0 :: lib where
  "lib0 = \<lparr>isISO8601 = (\<lambda>x. x \<in> set [''2001-01-01'', ''2999-01-01'']),
      parseDate = (\<lambda>x. if x = ''2001-01-01'' then Some 978307200000
                        else if x = ''2999-01-01'' then Some 32472144000000 else None),
      regexTest = (\<lambda>p x. True),
      cursor = (\<lambda>sortBy dir skip lim ts. ts),
      typeErrorMessage = ''Cannot read properties of null (reading '' @ quoted ''equals'' @ '')'',
      inspectRef = (\<lambda>i e. ''{ _id: new ObjectId('' @ quoted i @ ''), email: '' @ quoted e @ '' }'')\<rparr>"

definition pdf :: "string \<Rightarrow> req_file" where
  "pdf n = \<lparr>file_originalname = n @ ''.pdf'', file_filename = ''documents-'' @ n @ ''.pdf'',
      file_path = ''uploads/tasks/documents-'' @ n @ ''.pdf'', file_size = 1024,
      file_mimetype = ''application/pdf''\<rparr>"

definition gen0 :: "nat \<Rightarrow> oid" where
  "gen0 k = ''64c00000000000000000000'' @ [''0123456789'' ! k]"

definition gen1 :: "nat \<Rightarrow> oid" where
  "gen1 k = ''64d00000000000000000000'' @ [''0123456789'' ! k]"

definition tid0 :: oid where
  "tid0 = ''64c000000000000000000000''"

definition noBody :: task_body where
  "noBody = \<lparr>b_title = None, b_description = None, b_status = None, b_priority = None,
      b_dueDate = None, b_assignedTo = None, b_createdBy = None\<rparr>"

definition body0 :: task_body where
  "body0 = noBody\<lparr>b_title := Some ''T1'', b_assignedTo := Some (user_id bob),
      b_createdBy := Some (user_id carol)\<rparr>"

definition store0 :: store where
  "store0 = \<lparr>users = [alice, bob, carol, root], tasks = [], taskDocuments = [], uploads = []\<rparr>"

definition task1 :: task where
  "task1 = \<lparr>task_id = tid0, title = ''T1'', description = [], status = ''pending'',
      priority = ''medium'', dueDate = None, assignedTo = Some (user_id bob),
      createdBy = user_id alice, documents = [gen0 1, gen0 2]\<rparr>"

definition store1 :: store where
  "store1 = \<lparr>users = [alice, bob, carol, root], tasks = [task1],
      taskDocuments = [newDocument (gen0 1) tid0 (user_id alice) (pdf ''a''),
                       newDocument (gen0 2) tid0 (user_id alice) (pdf ''b'')],
      uploads = [file_path (pdf ''a''), file_path (pdf ''b'')]\<rparr>"

definition requests1 :: "request list" where
  "requests1 = [SetUsers [alice, bob, carol, root],
                CreateTask 946684800000 gen0 alice body0 [pdf ''a'', pdf ''b'']]"

definition task2 :: task where
  "task2 = task1\<lparr>dueDate := Some 978307200000, documents := []\<rparr>"

definition store2 :: store where
  "store2 = \<lparr>users = [alice, bob, carol, root], tasks = [task2], taskDocuments = [], uploads = []\<rparr>"

definition requests2 :: "request list" where
  "requests2 = [SetUsers [alice, bob, carol, root],
                CreateTask 946684800000 gen0 alice (body0\<lparr>b_dueDate := Some ''2001-01-01''\<rparr>) []]"

definition store3 :: store where
  "store3 = store1\<lparr>users := [bob, carol, root]\<rparr>"

definition requests3 :: "request list" where
  "requests3 = requests1 @ [DeleteUser root (user_id alice)]"

definition task4 :: task where
  "task4 = task1\<lparr>dueDate := Some 978307200000, documents := [gen0 1]\<rparr>"

definition store4 :: store where
  "store4 = \<lparr>users = [alice, bob, carol, root], tasks = [task4],
      taskDocuments = [newDocument (gen0 1) tid0 (user_id alice) (pdf ''a'')],
      uploads = [file_path (pdf ''a'')]\<rparr>"

definition requests4 :: "request list" where
  "requests4 = [SetUsers [alice, bob, carol, root],
                CreateTask 946684800000 gen0 alice (body0\<lparr>b_dueDate := Some ''2001-01-01''\<rparr>)
                  [pdf ''a'']]"

definition query0 :: task_query where
  "query0 = \<lparr>q_page = 1, q_limit = 10, q_search = None, q_status = Some ''pending'',
      q_priority = None, q_assignedTo = None, q_createdBy = None, q_dueDateFrom = None,
      q_dueDateTo = None, q_sortBy = ''createdAt'', q_sortOrder = ''desc''\<rparr>"


section \<open>Properties of the embedding\<close>

subsection \<open>Collections and saves\<close>

lemma v_task_populate [simp]: "v_task (populate s t) = t"
  by (simp add: populate_def)

lemma optEquals_iff: "optEquals a i = (a = Some i)"
  by (cases a) (auto simp: optEquals_def)

lemma find_map_replace:
  "find (\<lambda>x. task_id x = i) (map (\<lambda>x. if task_id x = task_id t then t else x) ts)
   = (if i = task_id t then (if find (\<lambda>x. task_id x = i) ts = None then None else Some t)
      else find (\<lambda>x. task_id x = i) ts)"
  by (induction ts) auto

lemma findTask_saveTask:
  "saveTask now t ts = Some ts' \<Longrightarrow>
   findTask ts' i = (if i = task_id t then (if findTask ts i = None then None else Some t)
      else findTask ts i)"
  by (auto simp: saveTask_def findTask_def find_map_replace split: if_splits)

lemma findTask_id: "findTask ts i = Some t \<Longrightarrow> task_id t = i"
  by (auto simp: findTask_def find_Some_iff)

lemma setField_keeps:
  assumes "\<And>x t. g (f x t) = g t"
  shows "g (setField v f t) = g t"
  using assms by (cases v) (simp_all add: setField_def)

lemma applyBody_keeps:
  assumes "applyBody L b t = Some t1"
  shows "task_id t1 = task_id t" and "createdBy t1 = createdBy t" and "documents t1 = documents t"
  using assms by (auto simp: applyBody_def setField_keeps)

lemma applyBody_dueDate:
  assumes "applyBody L b t = Some t1"
  shows "dueUpdate L (b_dueDate b) (dueDate t) = Some (dueDate t1)"
  using assms by (auto simp: applyBody_def setField_keeps)

lemma find_app: "find P (xs @ ys) = (case find P xs of None \<Rightarrow> find P ys | Some x \<Rightarrow> Some x)"
  by (induction xs) auto

lemma findTask_insertTask:
  assumes "insertTask now t ts = Some ts'"
  shows "findTask ts' i = (if i = task_id t then Some t else findTask ts i)"
proof -
  from assms have ts': "ts' = ts @ [t]" and fresh: "findTask ts (task_id t) = None"
    by (auto simp: insertTask_def split: if_splits)
  show ?thesis
    using fresh by (cases "find (\<lambda>x. task_id x = i) ts") (auto simp: ts' findTask_def find_app)
qed


lemma create_documents_tasks:
  assumes "create_documents now gen s2 u b t files = (r, s', ev)"
    and "findTask (tasks s2) (task_id t) = Some t"
  shows "\<exists>t'. findTask (tasks s') (task_id t) = Some t' \<and> createdBy t' = createdBy t
           \<and> (\<forall>c x. r = Ok c x \<longrightarrow> x = populate s' t')"
    and "i \<noteq> task_id t \<Longrightarrow> findTask (tasks s') i = findTask (tasks s2) i"
  using assms
  by (auto simp: create_documents_def Let_def findTask_saveTask
        split: if_splits prod.splits option.splits)

lemma create_handler_cases:
  assumes "create_handler L now gen s1 u b files = (r, s', ev)"
  obtains (stopped) "s' = s1" "\<not> succeeded r" "ev = []"
  | (inserted) due ts where "createValid L b" "dueOf L (b_dueDate b) = Some due"
      "insertTask now (newTask (gen 0) u b due) (tasks s1) = Some ts"
      "create_documents now gen (s1\<lparr>tasks := ts\<rparr>) u b (newTask (gen 0) u b due) files = (r, s', ev)"
  using assms
  by (auto simp: create_handler_def succeeded_def split: if_splits option.splits)

lemma create_handler_tasks:
  assumes "create_handler L now gen s1 u b files = (r, s', ev)"
  shows "(\<forall>c v. r = Ok c v \<longrightarrow> createdBy (v_task v) = user_id u
            \<and> findTask (tasks s') (task_id (v_task v)) = Some (v_task v) \<and> v = populate s' (v_task v))
     \<and> (\<forall>i t'. findTask (tasks s') i = Some t' \<longrightarrow>
            findTask (tasks s1) i = Some t' \<or> createdBy t' = user_id u)
     \<and> (\<forall>i t'. findTask (tasks s1) i = Some t' \<longrightarrow> findTask (tasks s') i = Some t')"
  using assms
proof (cases rule: create_handler_cases)
  case stopped
  then show ?thesis by (auto simp: succeeded_def)
next
  case (inserted due ts)
  define t where "t = newTask (gen 0) u b due"
  note ins = inserted(3) [folded t_def] and cd = inserted(4) [folded t_def]
  have ft: "findTask (tasks (s1\<lparr>tasks := ts\<rparr>)) (task_id t) = Some t"
    using findTask_insertTask [OF ins] by simp
  have fresh: "findTask (tasks s1) (task_id t) = None"
    using ins by (auto simp: insertTask_def split: if_splits)
  have cb: "createdBy t = user_id u" by (simp add: t_def newTask_def)
  from create_documents_tasks(1) [OF cd ft] obtain t' where
    t': "findTask (tasks s') (task_id t) = Some t'" "createdBy t' = createdBy t"
      "\<forall>c x. r = Ok c x \<longrightarrow> x = populate s' t'" by blast
  have other: "\<And>i. i \<noteq> task_id t \<Longrightarrow> findTask (tasks s') i = findTask (tasks s1) i"
    using create_documents_tasks(2) [OF cd ft] findTask_insertTask [OF ins] by simp
  have tid: "task_id t' = task_id t" using t'(1) by (rule findTask_id)
  show ?thesis
  proof (intro conjI allI impI)
    fix c x assume "r = Ok c x"
    then have x: "x = populate s' t'" using t'(3) by blast
    then show "createdBy (v_task x) = user_id u" using t'(2) cb by simp
    show "findTask (tasks s') (task_id (v_task x)) = Some (v_task x)" using x t'(1) tid by simp
    show "x = populate s' (v_task x)" using x by simp
  next
    fix i x assume "findTask (tasks s') i = Some x"
    then show "findTask (tasks s1) i = Some x \<or> createdBy x = user_id u"
      using other [of i] t' cb by (cases "i = task_id t") auto
  next
    fix i x assume "findTask (tasks s1) i = Some x"
    then show "findTask (tasks s') i = Some x"
      using other [of i] fresh by (cases "i = task_id t") auto
  qed
qed

lemma create_task_tasks:
  assumes "create_task L now gen s u b files = (r, s', ev)"
  shows "(\<forall>c v. r = Ok c v \<longrightarrow> createdBy (v_task v) = user_id u
            \<and> findTask (tasks s') (task_id (v_task v)) = Some (v_task v) \<and> v = populate s' (v_task v))
     \<and> (\<forall>i t'. findTask (tasks s') i = Some t' \<longrightarrow>
            findTask (tasks s) i = Some t' \<or> createdBy t' = user_id u)
     \<and> (\<forall>i t'. findTask (tasks s) i = Some t' \<longrightarrow> findTask (tasks s') i = Some t')"
proof (cases "uploadScan 0 files")
  case None
  then have "create_handler L now gen (s\<lparr>uploads := uploads s @ map file_path files\<rparr>) u b files = (r, s', ev)"
    using assms by (simp add: create_task_def)
  from create_handler_tasks [OF this] show ?thesis by simp
next
  case (Some a)
  then have "s' = s \<and> \<not> succeeded r"
    using assms by (auto simp: create_task_def succeeded_def split: prod.splits)
  then show ?thesis by (auto simp: succeeded_def)
qed


lemma update_documents_tasks:
  assumes "update_documents L now gen s2 u old t1 files = (r, s', ev)"
    and "findTask (tasks s2) (task_id t1) = Some t1"
  shows "\<exists>t'. findTask (tasks s') (task_id t1) = Some t' \<and> createdBy t' = createdBy t1"
    and "i \<noteq> task_id t1 \<Longrightarrow> findTask (tasks s') i = findTask (tasks s2) i"
  using assms
  by (auto simp: update_documents_def Let_def findTask_saveTask
        split: if_splits prod.splits option.splits)

lemma update_handler_cases:
  assumes "update_handler L now gen s1 u pid b files = (r, s', ev)"
  obtains (stopped) "s' = s1" "\<not> succeeded r" "ev = []"
  | (saved) t t1 ts where "updateValid L pid b" "findTask (tasks s1) (objectId pid) = Some t"
      "\<not> updateDenied u t" "\<not> assigneeMissing (users s1) (b_assignedTo b)"
      "applyBody L b t = Some t1" "saveTask now t1 (tasks s1) = Some ts"
      "update_documents L now gen (s1\<lparr>tasks := ts\<rparr>) u (assignedTo t) t1 files = (r, s', ev)"
  using assms
  by (auto simp: update_handler_def succeeded_def split: if_splits option.splits)

lemma update_handler_creators:
  assumes "update_handler L now gen s1 u pid b files = (r, s', ev)"
  shows "map_option createdBy (findTask (tasks s') i) = map_option createdBy (findTask (tasks s1) i)"
  using assms
proof (cases rule: update_handler_cases)
  case stopped
  then show ?thesis by simp
next
  case (saved t t1 ts)
  have id1: "task_id t1 = objectId pid" "createdBy t1 = createdBy t"
    using applyBody_keeps [OF saved(5)] findTask_id [OF saved(2)] by simp_all
  have f1: "findTask ts j = (if j = objectId pid then Some t1 else findTask (tasks s1) j)" for j
    using findTask_saveTask [OF saved(6), of j] saved(2) id1 by simp
  have ft: "findTask (tasks (s1\<lparr>tasks := ts\<rparr>)) (task_id t1) = Some t1"
    using f1 [of "objectId pid"] id1 by simp
  show ?thesis
  proof (cases "i = objectId pid")
    case True
    from update_documents_tasks(1) [OF saved(7) ft] show ?thesis
      using True id1 saved(2) by auto
  next
    case False
    then show ?thesis
      using update_documents_tasks(2) [OF saved(7) ft, of i] f1 [of i] id1 by simp
  qed
qed

lemma update_task_creators:
  assumes "update_task L now gen s u pid b files = (r, s', ev)"
  shows "map_option createdBy (findTask (tasks s') i) = map_option createdBy (findTask (tasks s) i)"
proof (cases "uploadScan 0 files")
  case None
  then show ?thesis
    using assms update_handler_creators [of L now gen "s\<lparr>uploads := uploads s @ map file_path files\<rparr>" u pid b files r s' ev i]
    by (simp add: update_task_def)
next
  case (Some a)
  then show ?thesis using assms by (auto simp: update_task_def split: prod.splits)
qed

subsection \<open>Reachable stores are consistent\<close>

lemma uploadScan_length: "uploadScan k fs = None \<Longrightarrow> k \<le> 3 \<Longrightarrow> k + length fs \<le> 3"
  by (induction k fs rule: uploadScan.induct) (auto split: if_splits)

lemma saveDocuments_result:
  assumes "saveDocuments gen k tid uid fs ds = (ok, ids, ds')"
  shows "\<exists>new. ds' = ds @ new \<and> map doc_id new = ids \<and> (\<forall>d \<in> set new. taskId d = tid)
           \<and> length new \<le> length fs \<and> distinct ids \<and> set ids \<inter> doc_id ` set ds = {}"
  using assms
proof (induction fs arbitrary: k ds ok ids ds')
  case Nil
  then show ?case by simp
next
  case (Cons f fs)
  define d where "d = newDocument (gen k) tid uid f"
  show ?case
  proof (cases "validateDocument d \<and> find (\<lambda>x. doc_id x = doc_id d) ds = None")
    case True
    then obtain ok' ids' where rec: "saveDocuments gen (Suc k) tid uid fs (ds @ [d]) = (ok', ids', ds')"
      and ids: "ids = doc_id d # ids'"
      using Cons.prems by (auto simp: d_def Let_def split: prod.splits)
    from Cons.IH [OF rec] obtain new where new: "ds' = (ds @ [d]) @ new" "map doc_id new = ids'"
      "\<forall>x \<in> set new. taskId x = tid" "length new \<le> length fs" "distinct ids'"
      "set ids' \<inter> doc_id ` set (ds @ [d]) = {}" by blast
    have fresh: "doc_id d \<notin> doc_id ` set ds" using True by (auto simp: find_None_iff)
    have td: "taskId d = tid" by (simp add: d_def newDocument_def)
    show ?thesis
      apply (rule exI [of _ "d # new"])
      using new fresh td ids by auto
  next
    case False
    then obtain ok' where rec: "saveDocuments gen (Suc k) tid uid fs ds = (ok', ids, ds')"
      using Cons.prems by (auto simp: d_def Let_def split: prod.splits if_splits)
    from Cons.IH [OF rec] show ?thesis by auto
  qed
qed

lemma deleteFirst_filter:
  "distinct (map f xs) \<Longrightarrow> deleteFirst (\<lambda>x. f x = a) xs = filter (\<lambda>x. f x \<noteq> a) xs"
proof (induction xs)
  case Nil
  then show ?case by simp
next
  case (Cons x xs)
  show ?case
  proof (cases "f x = a")
    case True
    have "f x \<notin> f ` set xs" using Cons.prems by simp
    then have "\<forall>y \<in> set xs. f y \<noteq> a" using True by (metis imageI)
    then have "filter (\<lambda>y. f y \<noteq> a) xs = xs" by (simp add: filter_id_conv)
    then show ?thesis using True by simp
  next
    case False
    then show ?thesis using Cons by simp
  qed
qed

lemma consistent_uploads [simp]: "consistent (s\<lparr>uploads := x\<rparr>) = consistent s"
  by (simp add: consistent_def)

lemma consistent_users [simp]: "consistent (s\<lparr>users := x\<rparr>) = consistent s"
  by (simp add: consistent_def)

lemma findTask_Some_set: "findTask ts i = Some t \<Longrightarrow> t \<in> set ts \<and> task_id t = i"
  by (auto simp: findTask_def find_Some_iff)

lemma saveTask_sets:
  assumes "saveTask now t' ts = Some ts'"
  shows "map task_id ts' = map task_id ts" and "set ts' \<subseteq> insert t' (set ts)"
proof -
  from assms have ts': "ts' = map (\<lambda>x. if task_id x = task_id t' then t' else x) ts"
    by (simp add: saveTask_def split: if_splits)
  show "map task_id ts' = map task_id ts" unfolding ts' by (induction ts) auto
  show "set ts' \<subseteq> insert t' (set ts)" unfolding ts' by auto
qed

lemma consistent_saveTask:
  assumes c: "consistent s" and sv: "saveTask now t' (tasks s) = Some ts"
    and d: "distinct (documents t')"
    and r: "\<forall>i \<in> set (documents t'). \<exists>d \<in> set (taskDocuments s). doc_id d = i \<and> taskId d = task_id t'"
  shows "consistent (s\<lparr>tasks := ts\<rparr>)"
proof -
  note m = saveTask_sets [OF sv]
  have ids: "task_id ` set ts = task_id ` set (tasks s)"
    using m(1) by (metis set_map)
  have "\<forall>x \<in> set (taskDocuments s). \<exists>t \<in> set ts. task_id t = taskId x"
  proof
    fix x assume "x \<in> set (taskDocuments s)"
    then obtain t where "t \<in> set (tasks s)" "task_id t = taskId x"
      using c by (auto simp: consistent_def)
    then have "taskId x \<in> task_id ` set ts" using ids by force
    then show "\<exists>t \<in> set ts. task_id t = taskId x" by auto
  qed
  moreover have "\<forall>t \<in> set ts. distinct (documents t)
      \<and> (\<forall>i \<in> set (documents t). \<exists>d \<in> set (taskDocuments s). doc_id d = i \<and> taskId d = task_id t)"
    using m(2) c d r by (auto simp: consistent_def)
  ultimately show ?thesis
    using c m(1) by (simp add: consistent_def)
qed

lemma countDocuments_append:
  "countDocuments (ds @ new) i = countDocuments ds i + countDocuments new i"
  by (simp add: countDocuments_def findDocuments_def)

lemma countDocuments_le: "countDocuments new i \<le> length new"
  by (simp add: countDocuments_def findDocuments_def)

lemma countDocuments_other:
  "\<forall>d \<in> set new. taskId d = tid \<Longrightarrow> i \<noteq> tid \<Longrightarrow> countDocuments new i = 0"
  by (auto simp: countDocuments_def findDocuments_def)

lemma consistentD:
  assumes "consistent s"
  shows "distinct (map task_id (tasks s))" and "distinct (map doc_id (taskDocuments s))"
    and "\<And>t. t \<in> set (tasks s) \<Longrightarrow> distinct (documents t)"
    and "\<And>t i. t \<in> set (tasks s) \<Longrightarrow> i \<in> set (documents t) \<Longrightarrow>
           \<exists>d \<in> set (taskDocuments s). doc_id d = i \<and> taskId d = task_id t"
    and "\<And>d. d \<in> set (taskDocuments s) \<Longrightarrow> \<exists>t \<in> set (tasks s). task_id t = taskId d"
    and "\<And>i. countDocuments (taskDocuments s) i \<le> 3"
  using assms unfolding consistent_def by blast+

lemma consistentI:
  assumes "distinct (map task_id (tasks s))" and "distinct (map doc_id (taskDocuments s))"
    and "\<And>t. t \<in> set (tasks s) \<Longrightarrow> distinct (documents t)"
    and "\<And>t i. t \<in> set (tasks s) \<Longrightarrow> i \<in> set (documents t) \<Longrightarrow>
           \<exists>d \<in> set (taskDocuments s). doc_id d = i \<and> taskId d = task_id t"
    and "\<And>d. d \<in> set (taskDocuments s) \<Longrightarrow> \<exists>t \<in> set (tasks s). task_id t = taskId d"
    and "\<And>i. countDocuments (taskDocuments s) i \<le> 3"
  shows "consistent s"
  using assms unfolding consistent_def by blast

lemma consistent_saveDocuments:
  assumes c: "consistent s"
    and sd: "saveDocuments gen k tid uid fs (taskDocuments s) = (ok, ids, ds)"
    and ex: "\<exists>t \<in> set (tasks s). task_id t = tid"
    and le: "countDocuments (taskDocuments s) tid + length fs \<le> 3"
  shows "consistent (s\<lparr>taskDocuments := ds\<rparr>)"
proof -
  note cd = consistentD [OF c]
  from saveDocuments_result [OF sd] obtain new where new:
    "ds = taskDocuments s @ new" "map doc_id new = ids" "\<forall>d \<in> set new. taskId d = tid"
    "length new \<le> length fs" "distinct ids" "set ids \<inter> doc_id ` set (taskDocuments s) = {}"
    by blast
  have "set (map doc_id new) \<inter> set (map doc_id (taskDocuments s)) = {}"
    using new(6) new(2) by simp
  then have d1: "distinct (map doc_id ds)"
    using cd(2) new(5) new(2) unfolding new(1) by (simp add: Int_commute)
  have cnt: "countDocuments ds i \<le> 3" for i
  proof (cases "i = tid")
    case True
    have "countDocuments new tid \<le> length fs"
      using countDocuments_le [of new tid] new(4) by simp
    then show ?thesis using le True by (simp add: new(1) countDocuments_append)
  next
    case False
    then show ?thesis
      using cd(6) [of i] countDocuments_other [OF new(3), of i]
      by (simp add: new(1) countDocuments_append)
  qed
  show ?thesis
  proof (rule consistentI)
    show "distinct (map task_id (tasks (s\<lparr>taskDocuments := ds\<rparr>)))" using cd(1) by simp
    show "distinct (map doc_id (taskDocuments (s\<lparr>taskDocuments := ds\<rparr>)))" using d1 by simp
    show "distinct (documents t)" if "t \<in> set (tasks (s\<lparr>taskDocuments := ds\<rparr>))" for t
      using that cd(3) by simp
    show "\<exists>d \<in> set (taskDocuments (s\<lparr>taskDocuments := ds\<rparr>)). doc_id d = i \<and> taskId d = task_id t"
      if "t \<in> set (tasks (s\<lparr>taskDocuments := ds\<rparr>))" "i \<in> set (documents t)" for t i
    proof -
      from that cd(4) [of t i] obtain d where "d \<in> set (taskDocuments s)" "doc_id d = i" "taskId d = task_id t"
        by auto
      then show ?thesis by (auto simp: new(1))
    qed
    show "\<exists>t \<in> set (tasks (s\<lparr>taskDocuments := ds\<rparr>)). task_id t = taskId d"
      if "d \<in> set (taskDocuments (s\<lparr>taskDocuments := ds\<rparr>))" for d
    proof (cases "d \<in> set new")
      case True
      then show ?thesis using ex new(3) by auto
    next
      case False
      then have "d \<in> set (taskDocuments s)" using that by (simp add: new(1))
      then show ?thesis using cd(5) [of d] by simp
    qed
    show "countDocuments (taskDocuments (s\<lparr>taskDocuments := ds\<rparr>)) i \<le> 3" for i
      using cnt by simp
  qed
qed

lemma consistent_insertTask:
  assumes c: "consistent s" and ins: "insertTask now t (tasks s) = Some ts"
    and nd: "documents t = []"
  shows "consistent (s\<lparr>tasks := ts\<rparr>)" and "countDocuments (taskDocuments s) (task_id t) = 0"
proof -
  note cd = consistentD [OF c]
  from ins have ts: "ts = tasks s @ [t]" and fresh: "findTask (tasks s) (task_id t) = None"
    by (auto simp: insertTask_def split: if_splits)
  have fr: "task_id t \<notin> task_id ` set (tasks s)"
    using fresh by (auto simp: findTask_def find_None_iff)
  show "consistent (s\<lparr>tasks := ts\<rparr>)"
  proof (rule consistentI)
    show "distinct (map task_id (tasks (s\<lparr>tasks := ts\<rparr>)))" using cd(1) fr by (simp add: ts)
    show "distinct (map doc_id (taskDocuments (s\<lparr>tasks := ts\<rparr>)))" using cd(2) by simp
    show "distinct (documents x)" if "x \<in> set (tasks (s\<lparr>tasks := ts\<rparr>))" for x
      using that cd(3) [of x] nd by (auto simp: ts)
    show "\<exists>d \<in> set (taskDocuments (s\<lparr>tasks := ts\<rparr>)). doc_id d = i \<and> taskId d = task_id x"
      if "x \<in> set (tasks (s\<lparr>tasks := ts\<rparr>))" "i \<in> set (documents x)" for x i
      using that cd(4) [of x i] nd by (auto simp: ts)
    show "\<exists>x \<in> set (tasks (s\<lparr>tasks := ts\<rparr>)). task_id x = taskId d"
      if "d \<in> set (taskDocuments (s\<lparr>tasks := ts\<rparr>))" for d
      using that cd(5) [of d] by (auto simp: ts)
    show "countDocuments (taskDocuments (s\<lparr>tasks := ts\<rparr>)) i \<le> 3" for i
      using cd(6) by simp
  qed
  have "\<forall>d \<in> set (taskDocuments s). taskId d \<noteq> task_id t"
  proof
    fix d assume "d \<in> set (taskDocuments s)"
    then obtain x where "x \<in> set (tasks s)" "task_id x = taskId d" using cd(5) by blast
    then show "taskId d \<noteq> task_id t" using fr by (metis imageI)
  qed
  then show "countDocuments (taskDocuments s) (task_id t) = 0"
    by (auto simp: countDocuments_def findDocuments_def)
qed

lemma consistent_attach:
  assumes c: "consistent s2" and ft: "findTask (tasks s2) (task_id t) = Some t"
    and sd: "saveDocuments gen k (task_id t) uid files (taskDocuments s2) = (ok, ids, ds)"
    and le: "countDocuments (taskDocuments s2) (task_id t) + length files \<le> 3"
    and sv: "saveTask now (t\<lparr>documents := documents t @ ids\<rparr>) (tasks (s2\<lparr>taskDocuments := ds\<rparr>)) = Some ts"
  shows "consistent (s2\<lparr>taskDocuments := ds\<rparr>)"
    and "consistent (s2\<lparr>taskDocuments := ds, tasks := ts\<rparr>)"
proof -
  note tin = findTask_Some_set [OF ft]
  have ex: "\<exists>x \<in> set (tasks s2). task_id x = task_id t" using tin by blast
  show c3: "consistent (s2\<lparr>taskDocuments := ds\<rparr>)"
    by (rule consistent_saveDocuments [OF c sd ex le])
  from saveDocuments_result [OF sd] obtain new where new:
    "ds = taskDocuments s2 @ new" "map doc_id new = ids" "\<forall>d \<in> set new. taskId d = task_id t"
    "distinct ids" "set ids \<inter> doc_id ` set (taskDocuments s2) = {}"
    by blast
  note cd = consistentD [OF c]
  have old: "set (documents t) \<subseteq> doc_id ` set (taskDocuments s2)"
  proof
    fix i assume "i \<in> set (documents t)"
    then obtain d where "d \<in> set (taskDocuments s2)" "doc_id d = i"
      using cd(4) [of t i] tin by blast
    then show "i \<in> doc_id ` set (taskDocuments s2)" by (metis imageI)
  qed
  have dist: "distinct (documents t @ ids)"
    using cd(3) [of t] tin new(4) new(5) old by auto
  have refs: "\<forall>i \<in> set (documents t @ ids). \<exists>d \<in> set ds. doc_id d = i \<and> taskId d = task_id t"
  proof
    fix i assume i: "i \<in> set (documents t @ ids)"
    show "\<exists>d \<in> set ds. doc_id d = i \<and> taskId d = task_id t"
    proof (cases "i \<in> set (documents t)")
      case True
      then obtain d where "d \<in> set (taskDocuments s2)" "doc_id d = i" "taskId d = task_id t"
        using cd(4) [of t i] tin by blast
      then show ?thesis by (auto simp: new(1))
    next
      case False
      then have "i \<in> set (map doc_id new)" using i new(2) by simp
      then obtain d where "d \<in> set new" "doc_id d = i" by auto
      then show ?thesis using new(3) by (auto simp: new(1))
    qed
  qed
  have "consistent ((s2\<lparr>taskDocuments := ds\<rparr>)\<lparr>tasks := ts\<rparr>)"
    by (rule consistent_saveTask [OF c3 sv]) (use dist refs in simp_all)
  then show "consistent (s2\<lparr>taskDocuments := ds, tasks := ts\<rparr>)" by simp
qed

lemma update_documents_consistent:
  assumes r: "update_documents L now gen s2 u old t1 files = (r, s', ev)"
    and c: "consistent s2" and ft: "findTask (tasks s2) (task_id t1) = Some t1"
  shows "consistent s'"
proof (cases "files = [] \<or> countDocuments (taskDocuments s2) (task_id t1) + length files > 3")
  case True
  then have "s' = s2" using r by (auto simp: update_documents_def split: if_splits)
  then show ?thesis using c by simp
next
  case False
  obtain ok ids ds where sd: "saveDocuments gen 0 (task_id t1) (user_id u) files (taskDocuments s2) = (ok, ids, ds)"
    by (cases "saveDocuments gen 0 (task_id t1) (user_id u) files (taskDocuments s2)") auto
  have le: "countDocuments (taskDocuments s2) (task_id t1) + length files \<le> 3" using False by simp
  show ?thesis
  proof (cases "saveTask now (t1\<lparr>documents := documents t1 @ ids\<rparr>) (tasks (s2\<lparr>taskDocuments := ds\<rparr>))")
    case None
    then have "s' = s2\<lparr>taskDocuments := ds\<rparr>"
      using r False sd by (auto simp: update_documents_def Let_def split: if_splits)
    then show ?thesis
      using consistent_saveDocuments [OF c sd _ le] findTask_Some_set [OF ft] by blast
  next
    case (Some ts)
    then have "s' = s2\<lparr>taskDocuments := ds\<rparr> \<or> s' = s2\<lparr>taskDocuments := ds, tasks := ts\<rparr>"
      using r False sd by (auto simp: update_documents_def Let_def split: if_splits)
    then show ?thesis
      using consistent_attach [OF c ft sd le Some] by auto
  qed
qed

lemma create_documents_consistent:
  assumes r: "create_documents now gen s2 u b t files = (r, s', ev)"
    and c: "consistent s2" and ft: "findTask (tasks s2) (task_id t) = Some t"
    and nd: "documents t = []"
    and le: "countDocuments (taskDocuments s2) (task_id t) + length files \<le> 3"
  shows "consistent s'"
proof (cases "files = []")
  case True
  then have "s' = s2" using r by (auto simp: create_documents_def)
  then show ?thesis using c by simp
next
  case False
  obtain ok ids ds where sd: "saveDocuments gen 1 (task_id t) (user_id u) files (taskDocuments s2) = (ok, ids, ds)"
    by (cases "saveDocuments gen 1 (task_id t) (user_id u) files (taskDocuments s2)") auto
  have eq: "t\<lparr>documents := ids\<rparr> = t\<lparr>documents := documents t @ ids\<rparr>" using nd by simp
  show ?thesis
  proof (cases "saveTask now (t\<lparr>documents := documents t @ ids\<rparr>) (tasks (s2\<lparr>taskDocuments := ds\<rparr>))")
    case None
    then have "s' = s2\<lparr>taskDocuments := ds\<rparr>"
      using r False sd by (auto simp: create_documents_def Let_def eq split: if_splits)
    then show ?thesis
      using consistent_saveDocuments [OF c sd _ le] findTask_Some_set [OF ft] by blast
  next
    case (Some ts)
    then have "s' = s2\<lparr>taskDocuments := ds\<rparr> \<or> s' = s2\<lparr>taskDocuments := ds, tasks := ts\<rparr>"
      using r False sd by (auto simp: create_documents_def Let_def eq split: if_splits)
    then show ?thesis
      using consistent_attach [OF c ft sd le Some] by auto
  qed
qed

lemma update_handler_consistent:
  assumes r: "update_handler L now gen s1 u pid b files = (r, s', ev)" and c: "consistent s1"
  shows "consistent s'"
  using r
proof (cases rule: update_handler_cases)
  case stopped
  then show ?thesis using c by simp
next
  case (saved t t1 ts)
  note k = applyBody_keeps [OF saved(5)]
  note tin = findTask_Some_set [OF saved(2)]
  note cd = consistentD [OF c]
  have c2: "consistent (s1\<lparr>tasks := ts\<rparr>)"
  proof (rule consistent_saveTask [OF c saved(6)])
    show "distinct (documents t1)" using cd(3) [of t] tin k by simp
    show "\<forall>i \<in> set (documents t1). \<exists>d \<in> set (taskDocuments s1). doc_id d = i \<and> taskId d = task_id t1"
      using cd(4) [of t] tin k by simp
  qed
  have ft: "findTask (tasks (s1\<lparr>tasks := ts\<rparr>)) (task_id t1) = Some t1"
    using findTask_saveTask [OF saved(6), of "task_id t1"] saved(2) k tin by simp
  show ?thesis by (rule update_documents_consistent [OF saved(7) c2 ft])
qed

lemma update_task_consistent:
  assumes "update_task L now gen s u pid b files = (r, s', ev)" and "consistent s"
  shows "consistent s'"
proof (cases "uploadScan 0 files")
  case None
  then have "update_handler L now gen (s\<lparr>uploads := uploads s @ map file_path files\<rparr>) u pid b files = (r, s', ev)"
    using assms(1) by (simp add: update_task_def)
  then show ?thesis by (rule update_handler_consistent) (simp add: assms(2))
next
  case (Some a)
  then have "s' = s" using assms(1) by (auto simp: update_task_def split: prod.splits)
  then show ?thesis using assms(2) by simp
qed

lemma create_handler_consistent:
  assumes r: "create_handler L now gen s1 u b files = (r, s', ev)" and c: "consistent s1"
    and le: "length files \<le> 3"
  shows "consistent s'"
proof (cases "\<exists>due ts. insertTask now (newTask (gen 0) u b due) (tasks s1) = Some ts
     \<and> create_documents now gen (s1\<lparr>tasks := ts\<rparr>) u b (newTask (gen 0) u b due) files = (r, s', ev)")
  case False
  then have "s' = s1"
    using r by (auto simp: create_handler_def split: if_splits option.splits)
  then show ?thesis using c by simp
next
  case True
  then obtain due ts where ins: "insertTask now (newTask (gen 0) u b due) (tasks s1) = Some ts"
    and cd: "create_documents now gen (s1\<lparr>tasks := ts\<rparr>) u b (newTask (gen 0) u b due) files = (r, s', ev)"
    by blast
  have nd: "documents (newTask (gen 0) u b due) = []" by (simp add: newTask_def)
  note ci = consistent_insertTask [OF c ins nd]
  have ft: "findTask (tasks (s1\<lparr>tasks := ts\<rparr>)) (task_id (newTask (gen 0) u b due)) = Some (newTask (gen 0) u b due)"
    using findTask_insertTask [OF ins] by simp
  show ?thesis
    by (rule create_documents_consistent [OF cd ci(1) ft nd]) (use ci(2) le in simp)
qed

lemma create_task_consistent:
  assumes "create_task L now gen s u b files = (r, s', ev)" and "consistent s"
  shows "consistent s'"
proof (cases "uploadScan 0 files")
  case None
  then have h: "create_handler L now gen (s\<lparr>uploads := uploads s @ map file_path files\<rparr>) u b files = (r, s', ev)"
    using assms(1) by (simp add: create_task_def)
  have le: "length files \<le> 3" using uploadScan_length [OF None] by simp
  have c: "consistent (s\<lparr>uploads := uploads s @ map file_path files\<rparr>)" using assms(2) by simp
  show ?thesis by (rule create_handler_consistent [OF h c le])
next
  case (Some a)
  then have "s' = s" using assms(1) by (auto simp: create_task_def split: prod.splits)
  then show ?thesis using assms(2) by simp
qed

lemma delete_task_cases:
  assumes "delete_task s u pid = (r, s', ev)"
  obtains (stopped) "s' = s" "\<not> succeeded r"
  | (deleted) t where "findTask (tasks s) (objectId pid) = Some t" "canDelete u t" "isMongoId pid" "r = Ok 200 ()"
      "s' = s\<lparr>uploads := foldl (\<lambda>fs d. unlink (filePath d) fs) (uploads s)
                 (findDocuments (taskDocuments s) (task_id t)),
              taskDocuments := deleteMany (taskDocuments s) (task_id t),
              tasks := deleteFirst (\<lambda>x. task_id x = objectId pid) (tasks s)\<rparr>"
proof (cases "isMongoId pid")
  case False
  then show ?thesis using assms stopped by (auto simp: delete_task_def succeeded_def)
next
  case True
  show ?thesis
  proof (cases "findTask (tasks s) (objectId pid)")
    case None
    then show ?thesis using assms stopped True by (auto simp: delete_task_def succeeded_def)
  next
    case (Some t)
    show ?thesis
    proof (cases "canDelete u t")
      case False
      then show ?thesis
        using assms stopped True Some by (auto simp: delete_task_def succeeded_def canDelete_def)
    next
      case c: True
      show ?thesis
        by (rule deleted [OF Some c True])
           (use assms True Some c in \<open>auto simp: delete_task_def canDelete_def Let_def\<close>)
    qed
  qed
qed

lemma length_filter_filter_le: "length (filter P (filter Q xs)) \<le> length (filter P xs)"
  by (induction xs) auto

lemma delete_task_consistent:
  assumes r: "delete_task s u pid = (r, s', ev)" and c: "consistent s"
  shows "consistent s'"
  using r
proof (cases rule: delete_task_cases)
  case stopped
  then show ?thesis using c by simp
next
  case (deleted t)
  note t = deleted(1) and s' = deleted(5)
  note cd = consistentD [OF c]
  have tid: "task_id t = objectId pid" using findTask_Some_set [OF t] by simp
  have ts: "deleteFirst (\<lambda>x. task_id x = objectId pid) (tasks s) = filter (\<lambda>x. task_id x \<noteq> objectId pid) (tasks s)"
    by (rule deleteFirst_filter [OF cd(1)])
  have ds: "deleteMany (taskDocuments s) (task_id t) = filter (\<lambda>x. taskId x \<noteq> objectId pid) (taskDocuments s)"
    by (simp add: deleteMany_def tid)
  show ?thesis
  proof (rule consistentI)
    show "distinct (map task_id (tasks s'))" using cd(1) by (simp add: s' ts distinct_map_filter)
    show "distinct (map doc_id (taskDocuments s'))" using cd(2) by (simp add: s' ds distinct_map_filter)
    show "distinct (documents x)" if "x \<in> set (tasks s')" for x
      using that cd(3) [of x] by (simp add: s' ts)
    show "\<exists>d \<in> set (taskDocuments s'). doc_id d = i \<and> taskId d = task_id x"
      if xin: "x \<in> set (tasks s')" and iin: "i \<in> set (documents x)" for x i
    proof -
      have x: "x \<in> set (tasks s)" "task_id x \<noteq> objectId pid" using xin by (simp_all add: s' ts)
      then obtain d where "d \<in> set (taskDocuments s)" "doc_id d = i" "taskId d = task_id x"
        using cd(4) [of x i] iin by blast
      then show ?thesis using x(2) by (auto simp: s' ds)
    qed
    show "\<exists>x \<in> set (tasks s'). task_id x = taskId d" if "d \<in> set (taskDocuments s')" for d
    proof -
      have d: "d \<in> set (taskDocuments s)" "taskId d \<noteq> objectId pid" using that by (simp_all add: s' ds)
      then obtain x where "x \<in> set (tasks s)" "task_id x = taskId d" using cd(5) [of d] by blast
      then show ?thesis using d(2) by (auto simp: s' ts)
    qed
    show "countDocuments (taskDocuments s') i \<le> 3" for i
    proof -
      have "countDocuments (taskDocuments s') i \<le> countDocuments (taskDocuments s) i"
        unfolding countDocuments_def findDocuments_def s' ds
        by (simp del: filter_filter add: length_filter_filter_le)
      then show ?thesis using cd(6) [of i] by simp
    qed
  qed
qed

lemma findOneDocument_set:
  "findOneDocument ds did pid = Some d \<Longrightarrow> d \<in> set ds \<and> doc_id d = did \<and> taskId d = pid"
  by (auto simp: findOneDocument_def find_Some_iff)

lemma delete_document_cases:
  assumes "delete_document now s u pid did = (r, s', ev)"
  obtains (stopped) "s' = s" "\<not> succeeded r" "ev = []"
  | (failed) t d where "isMongoId pid" "isMongoId did" "findTask (tasks s) (objectId pid) = Some t"
      "findOneDocument (taskDocuments s) (objectId did) (objectId pid) = Some d" "canRemoveDocument u t d"
      "\<not> validateTask now (t\<lparr>documents := filter (\<lambda>i. \<not> i = doc_id d) (documents t)\<rparr>)"
      "r = Fail 500 ''Error deleting document''"
      "s' = s\<lparr>uploads := unlink (filePath d) (uploads s)\<rparr>" "ev = []"
  | (removed) t d ts where "isMongoId pid" "isMongoId did" "findTask (tasks s) (objectId pid) = Some t"
      "findOneDocument (taskDocuments s) (objectId did) (objectId pid) = Some d" "canRemoveDocument u t d"
      "saveTask now (t\<lparr>documents := filter (\<lambda>i. \<not> i = doc_id d) (documents t)\<rparr>) (tasks s) = Some ts"
      "r = Ok 200 ()"
      "s' = s\<lparr>uploads := unlink (filePath d) (uploads s), tasks := ts,
              taskDocuments := deleteFirst (\<lambda>x. doc_id x = doc_id d) (taskDocuments s)\<rparr>"
      "ev = []"
proof (cases "isMongoId pid \<and> isMongoId did")
  case False
  then show ?thesis using assms stopped by (auto simp: delete_document_def succeeded_def)
next
  case ids: True
  show ?thesis
  proof (cases "findTask (tasks s) (objectId pid)")
    case None
    then show ?thesis using assms stopped ids by (auto simp: delete_document_def succeeded_def)
  next
    case t: (Some t)
    show ?thesis
    proof (cases "findOneDocument (taskDocuments s) (objectId did) (objectId pid)")
      case None
      then show ?thesis using assms stopped ids t by (auto simp: delete_document_def succeeded_def)
    next
      case d: (Some d)
      show ?thesis
      proof (cases "canRemoveDocument u t d")
        case False
        then show ?thesis
          using assms stopped ids t d
          by (auto simp: delete_document_def succeeded_def canRemoveDocument_def)
      next
        case p: True
        let ?t1 = "t\<lparr>documents := filter (\<lambda>i. \<not> i = doc_id d) (documents t)\<rparr>"
        have perm: "\<not> (role u \<noteq> ''admin'' \<and> \<not> createdBy t = user_id u \<and> \<not> uploadedBy d = user_id u)"
          using p by (auto simp: canRemoveDocument_def)
        show ?thesis
        proof (cases "saveTask now ?t1 (tasks s)")
          case None
          then have nv: "\<not> validateTask now ?t1" by (auto simp: saveTask_def split: if_splits)
          have "r = Fail 500 ''Error deleting document'' \<and> s' = s\<lparr>uploads := unlink (filePath d) (uploads s)\<rparr> \<and> ev = []"
            using assms ids t d perm None by (auto simp: delete_document_def Let_def)
          then show ?thesis using failed [OF _ _ t d p nv] ids by blast
        next
          case (Some ts)
          have "r = Ok 200 () \<and> s' = s\<lparr>uploads := unlink (filePath d) (uploads s), tasks := ts,
              taskDocuments := deleteFirst (\<lambda>x. doc_id x = doc_id d) (taskDocuments s)\<rparr> \<and> ev = []"
            using assms ids t d perm Some by (auto simp: delete_document_def Let_def)
          then show ?thesis using removed [OF _ _ t d p Some] ids by blast
        qed
      qed
    qed
  qed
qed

lemma delete_document_consistent:
  assumes r: "delete_document now s u pid did = (r, s', ev)" and c: "consistent s"
  shows "consistent s'"
  using r
proof (cases rule: delete_document_cases)
  case stopped
  then show ?thesis using c by simp
next
  case (failed t d)
  then show ?thesis using c by simp
next
  case (removed t d ts)
  let ?t1 = "t\<lparr>documents := filter (\<lambda>i. \<not> i = doc_id d) (documents t)\<rparr>"
  note cd = consistentD [OF c]
  note tin = findTask_Some_set [OF removed(3)]
  note din = findOneDocument_set [OF removed(4)]
  have c2: "consistent (s\<lparr>tasks := ts\<rparr>)"
  proof (rule consistent_saveTask [OF c removed(6)])
    show "distinct (documents ?t1)" using cd(3) [of t] tin by simp
    show "\<forall>i \<in> set (documents ?t1). \<exists>x \<in> set (taskDocuments s). doc_id x = i \<and> taskId x = task_id ?t1"
      using cd(4) [of t] tin by simp
  qed
  note cd2 = consistentD [OF c2]
  have ds: "deleteFirst (\<lambda>x. doc_id x = doc_id d) (taskDocuments s)
      = filter (\<lambda>x. doc_id x \<noteq> doc_id d) (taskDocuments s)"
    by (rule deleteFirst_filter [OF cd(2)])
  have uniq: "x = d" if "x \<in> set (taskDocuments s)" "doc_id x = doc_id d" for x
    using that din cd(2) by (meson distinct_map inj_onD)
  have tsub: "set ts \<subseteq> insert ?t1 (set (tasks s))" by (rule saveTask_sets(2) [OF removed(6)])
  have notpid: "task_id x \<noteq> objectId pid" if "x \<in> set ts" "x \<noteq> ?t1" for x
  proof -
    from removed(6) have ts: "ts = map (\<lambda>x. if task_id x = task_id ?t1 then ?t1 else x) (tasks s)"
      by (simp add: saveTask_def split: if_splits)
    from that(1) obtain y where "y \<in> set (tasks s)" "x = (if task_id y = task_id ?t1 then ?t1 else y)"
      unfolding ts by auto
    then show ?thesis using that(2) tin by (auto split: if_splits)
  qed
  have s': "s' = (s\<lparr>tasks := ts\<rparr>)\<lparr>uploads := unlink (filePath d) (uploads s),
      taskDocuments := filter (\<lambda>x. doc_id x \<noteq> doc_id d) (taskDocuments s)\<rparr>"
    by (simp add: removed(8) ds)
  show ?thesis
  proof (rule consistentI)
    show "distinct (map task_id (tasks s'))" using cd2(1) by (simp add: s')
    show "distinct (map doc_id (taskDocuments s'))" using cd(2) by (simp add: s' distinct_map_filter)
    show "distinct (documents x)" if "x \<in> set (tasks s')" for x
      using that cd2(3) [of x] by (simp add: s')
    show "\<exists>y \<in> set (taskDocuments s'). doc_id y = i \<and> taskId y = task_id x"
      if xin: "x \<in> set (tasks s')" and iin: "i \<in> set (documents x)" for x i
    proof -
      have x: "x \<in> set ts" using xin by (simp add: s')
      then obtain y where y: "y \<in> set (taskDocuments s)" "doc_id y = i" "taskId y = task_id x"
        using cd2(4) [of x i] iin by auto
      have "doc_id y \<noteq> doc_id d"
      proof (cases "x = ?t1")
        case True
        then show ?thesis using iin y(2) by auto
      next
        case False
        then have "task_id x \<noteq> objectId pid" using notpid [OF x] by simp
        then have "y \<noteq> d" using y(3) din by auto
        then show ?thesis using uniq [OF y(1)] by blast
      qed
      then show ?thesis using y by (auto simp: s')
    qed
    show "\<exists>x \<in> set (tasks s'). task_id x = taskId y" if "y \<in> set (taskDocuments s')" for y
    proof -
      have "y \<in> set (taskDocuments s)" using that by (simp add: s')
      then show ?thesis using cd2(5) [of y] by (simp add: s')
    qed
    show "countDocuments (taskDocuments s') i \<le> 3" for i
    proof -
      have "countDocuments (taskDocuments s') i \<le> countDocuments (taskDocuments s) i"
        unfolding countDocuments_def findDocuments_def s'
        by (simp del: filter_filter add: length_filter_filter_le)
      then show ?thesis using cd(6) [of i] by simp
    qed
  qed
qed

lemma delete_user_frame:
  "tasks (snd (delete_user_handler s u pid)) = tasks s
   \<and> taskDocuments (snd (delete_user_handler s u pid)) = taskDocuments s
   \<and> uploads (snd (delete_user_handler s u pid)) = uploads s"
  by (simp add: delete_user_handler_def split: option.splits)

lemma delete_user_consistent: "consistent s \<Longrightarrow> consistent (snd (delete_user_handler s u pid))"
  using delete_user_frame [of s u pid] by (simp add: consistent_def)

lemma step_consistent: "consistent s \<Longrightarrow> consistent (step L s rq)"
proof (cases rq)
  case (CreateTask now gen u b files)
  assume "consistent s"
  then show ?thesis
    using create_task_consistent [of L now gen s u b files] CreateTask
    by (cases "create_task L now gen s u b files") auto
next
  case (UpdateTask now gen u pid b files)
  assume "consistent s"
  then show ?thesis
    using update_task_consistent [of L now gen s u pid b files] UpdateTask
    by (cases "update_task L now gen s u pid b files") auto
next
  case (DeleteTask u pid)
  assume "consistent s"
  then show ?thesis
    using delete_task_consistent [of s u pid] DeleteTask
    by (cases "delete_task s u pid") auto
next
  case (DeleteDocument now u pid did)
  assume "consistent s"
  then show ?thesis
    using delete_document_consistent [of now s u pid did] DeleteDocument
    by (cases "delete_document now s u pid did") auto
next
  case (DeleteUser u pid)
  assume "consistent s"
  then show ?thesis using delete_user_consistent [of s u pid] DeleteUser by simp
next
  case (SetUsers us)
  assume "consistent s"
  then show ?thesis using SetUsers by simp
qed

lemma foldl_step_consistent: "consistent s \<Longrightarrow> consistent (foldl (step L) s rs)"
  by (induction rs arbitrary: s) (simp_all add: step_consistent)

lemma run_consistent: "consistent (run L rs)"
  unfolding run_def by (rule foldl_step_consistent) (simp add: consistent_def emptyStore_def countDocuments_def findDocuments_def)

lemma consistent_length:
  assumes "consistent s" and "t \<in> set (tasks s)"
  shows "length (documents t) \<le> 3"
proof -
  note cd = consistentD [OF assms(1)]
  have "set (documents t) \<subseteq> doc_id ` set (findDocuments (taskDocuments s) (task_id t))"
  proof
    fix i assume "i \<in> set (documents t)"
    then obtain d where "d \<in> set (taskDocuments s)" "doc_id d = i" "taskId d = task_id t"
      using cd(4) [OF assms(2)] by blast
    then have "d \<in> set (findDocuments (taskDocuments s) (task_id t))" by (simp add: findDocuments_def)
    then show "i \<in> doc_id ` set (findDocuments (taskDocuments s) (task_id t))"
      using \<open>doc_id d = i\<close> by (metis imageI)
  qed
  then have "card (set (documents t)) \<le> card (doc_id ` set (findDocuments (taskDocuments s) (task_id t)))"
    by (intro card_mono) simp_all
  also have "\<dots> \<le> card (set (findDocuments (taskDocuments s) (task_id t)))"
    by (rule card_image_le) simp
  also have "\<dots> \<le> countDocuments (taskDocuments s) (task_id t)"
    unfolding countDocuments_def by (rule card_length)
  also have "\<dots> \<le> 3" by (rule cd(6))
  finally show ?thesis using cd(3) [OF assms(2)] by (simp add: distinct_card)
qed

subsection \<open>The creator of a task\<close>

lemma find_filter_other:
  "find (\<lambda>x. f x = i) (filter (\<lambda>x. f x \<noteq> a) xs) = (if i = a then None else find (\<lambda>x. f x = i) xs)"
  by (induction xs) auto

lemma step_creator:
  assumes c: "consistent s" and b: "findTask (tasks s) i = Some t"
    and a: "findTask (tasks (step L s rq)) i = Some t'"
  shows "createdBy t' = createdBy t"
proof (cases rq)
  case (CreateTask now gen u bd files)
  obtain r s' ev where cr: "create_task L now gen s u bd files = (r, s', ev)"
    by (cases "create_task L now gen s u bd files") auto
  then have "findTask (tasks s') i = Some t" using create_task_tasks [OF cr] b by blast
  then show ?thesis using a cr CreateTask by simp
next
  case (UpdateTask now gen u pid bd files)
  obtain r s' ev where up: "update_task L now gen s u pid bd files = (r, s', ev)"
    by (cases "update_task L now gen s u pid bd files") auto
  from update_task_creators [OF up, of i] show ?thesis using a b up UpdateTask by simp
next
  case (DeleteTask u pid)
  obtain r s' ev where dl: "delete_task s u pid = (r, s', ev)"
    by (cases "delete_task s u pid") auto
  from dl have "findTask (tasks s') i = Some t' \<Longrightarrow> t' = t"
  proof (cases rule: delete_task_cases)
    case stopped
    assume "findTask (tasks s') i = Some t'"
    then show ?thesis using stopped b by simp
  next
    case (deleted x)
    assume f: "findTask (tasks s') i = Some t'"
    have "tasks s' = filter (\<lambda>x. task_id x \<noteq> objectId pid) (tasks s)"
      using deleted(5) deleteFirst_filter [OF consistentD(1) [OF c], of "objectId pid"] by simp
    then show ?thesis using f b by (simp add: findTask_def find_filter_other split: if_splits)
  qed
  then show ?thesis using a dl DeleteTask by simp
next
  case (DeleteDocument now u pid did)
  obtain r s' ev where dl: "delete_document now s u pid did = (r, s', ev)"
    by (cases "delete_document now s u pid did") auto
  from dl have "findTask (tasks s') i = Some t' \<Longrightarrow> createdBy t' = createdBy t"
  proof (cases rule: delete_document_cases)
    case stopped
    assume "findTask (tasks s') i = Some t'"
    then show ?thesis using stopped b by simp
  next
    case (failed x d)
    assume "findTask (tasks s') i = Some t'"
    then show ?thesis using failed b by simp
  next
    case (removed x d ts)
    assume f: "findTask (tasks s') i = Some t'"
    have "findTask (tasks s') i = findTask ts i" by (simp add: removed(8))
    then show ?thesis
      using f b findTask_saveTask [OF removed(6), of i] removed(3) findTask_id [OF removed(3)]
      by (auto split: if_splits)
  qed
  then show ?thesis using a dl DeleteDocument by simp
next
  case (DeleteUser u pid)
  then show ?thesis using a b delete_user_frame [of s u pid] by simp
next
  case (SetUsers us)
  then show ?thesis using a b by simp
qed

subsection \<open>Reading and deleting a task\<close>

lemma populateRef_fst: "populateRef us i = Some c \<Longrightarrow> fst c = i"
  by (auto simp: populateRef_def findUser_def find_Some_iff)

lemma assignee_populate:
  "optEquals (map_option fst (v_assignedTo (populate s t))) i
     \<longleftrightarrow> assignedTo t = Some i \<and> findUser (users s) i \<noteq> None"
proof (cases "assignedTo t")
  case None
  then show ?thesis by (simp add: populate_def optEquals_def)
next
  case (Some a)
  show ?thesis
  proof (cases "populateRef (users s) a")
    case None
    then show ?thesis using Some by (auto simp: populate_def optEquals_def populateRef_def)
  next
    case c: (Some c)
    then have "fst c = a" by (rule populateRef_fst)
    then show ?thesis using Some c by (auto simp: populate_def optEquals_def populateRef_def)
  qed
qed

lemma get_task_rule:
  assumes "isMongoId pid" and "findTask (tasks s) (objectId pid) = Some t"
    and "findUser (users s) (user_id p) \<noteq> None"
  shows "canView p t \<Longrightarrow> get_task L s p pid = Ok 200 (populate s t)"
    and "\<not> canView p t \<Longrightarrow> findUser (users s) (createdBy t) \<noteq> None \<Longrightarrow>
           get_task L s p pid =
             Fail 403 ''Access denied. You can only view tasks assigned to you or created by you.''"
    and "\<not> canView p t \<Longrightarrow> findUser (users s) (createdBy t) = None \<Longrightarrow>
           get_task L s p pid = Fail 500 (typeErrorMessage L)"
proof -
  have cb: "v_createdBy (populate s t) = populateRef (users s) (createdBy t)"
    by (simp add: populate_def)
  have g: "get_task L s p pid =
     (if role p \<noteq> ''admin'' \<and> \<not> (assignedTo t = Some (user_id p))
      then (case populateRef (users s) (createdBy t) of
              None \<Rightarrow> Fail 500 (typeErrorMessage L)
            | Some c \<Rightarrow> if \<not> fst c = user_id p
                then Fail 403 ''Access denied. You can only view tasks assigned to you or created by you.''
                else Ok 200 (populate s t))
      else Ok 200 (populate s t))"
    using assms by (simp add: get_task_def Let_def assignee_populate cb)
  show "get_task L s p pid = Ok 200 (populate s t)" if "canView p t"
  proof (cases "populateRef (users s) (createdBy t)")
    case None
    then have "createdBy t \<noteq> user_id p" using assms(3) by (auto simp: populateRef_def)
    then show ?thesis using that None by (auto simp: g canView_def)
  next
    case (Some c)
    then show ?thesis using that populateRef_fst [OF Some] by (auto simp: g canView_def)
  qed
  show "get_task L s p pid =
      Fail 403 ''Access denied. You can only view tasks assigned to you or created by you.''"
    if "\<not> canView p t" "findUser (users s) (createdBy t) \<noteq> None"
  proof -
    from that(2) obtain c where c: "populateRef (users s) (createdBy t) = Some c"
      by (auto simp: populateRef_def)
    show ?thesis using that(1) c populateRef_fst [OF c] by (auto simp: g canView_def)
  qed
  show "get_task L s p pid = Fail 500 (typeErrorMessage L)"
    if "\<not> canView p t" "findUser (users s) (createdBy t) = None"
    using that by (auto simp: g canView_def populateRef_def)
qed

lemma foldl_removeAll:
  "foldl (\<lambda>fs d. removeAll (g d) fs) fs0 docs = filter (\<lambda>f. f \<notin> set (map g docs)) fs0"
proof (induction docs arbitrary: fs0)
  case Nil
  then show ?case by simp
next
  case (Cons d docs)
  have "foldl (\<lambda>fs d. removeAll (g d) fs) fs0 (d # docs)
      = foldl (\<lambda>fs d. removeAll (g d) fs) (removeAll (g d) fs0) docs"
    by simp
  also have "\<dots> = filter (\<lambda>f. f \<notin> set (map g docs)) (removeAll (g d) fs0)"
    by (rule Cons.IH)
  also have "\<dots> = filter (\<lambda>f. f \<notin> set (map g (d # docs))) fs0"
    by (induction fs0) auto
  finally show ?case .
qed

lemma find_holds: "find P xs = Some t \<Longrightarrow> P t"
  by (induction xs) (auto split: if_splits)

lemma deleteFirst_remove1: "find P xs = Some t \<Longrightarrow> deleteFirst P xs = remove1 t xs"
proof (induction xs)
  case Nil
  then show ?case by simp
next
  case (Cons x xs)
  show ?case
  proof (cases "P x")
    case True
    then show ?thesis using Cons.prems by simp
  next
    case False
    then have f: "find P xs = Some t" using Cons.prems by simp
    then have "t \<noteq> x" using find_holds [OF f] False by auto
    then show ?thesis using False Cons.IH [OF f] by simp
  qed
qed

lemma foldl_unlink:
  "foldl (\<lambda>fs d. unlink (filePath d) fs) fs0 docs
     = filter (\<lambda>f. f \<notin> set (map filePath docs)) fs0"
  unfolding unlink_def by (rule foldl_removeAll)

subsection \<open>Removing a document\<close>

lemma unlink_filter: "unlink p fs = filter (\<lambda>f. f \<noteq> p) fs"
  by (induction fs) (auto simp: unlink_def)

lemma delete_document_rule:
  assumes ids: "isMongoId pid" "isMongoId did"
    and t: "findTask (tasks s) (objectId pid) = Some t"
    and d: "findOneDocument (taskDocuments s) (objectId did) (objectId pid) = Some d"
    and r: "delete_document now s p pid did = (r, s', ev)"
  shows "(\<not> canRemoveDocument p t d \<longrightarrow>
            r = Fail 403 ''Access denied. You can only delete documents you uploaded or from tasks you created.''
            \<and> s' = s \<and> ev = [])
     \<and> (statusOf r = 403 \<longrightarrow> \<not> canRemoveDocument p t d)
     \<and> (succeeded r \<longleftrightarrow>
            canRemoveDocument p t d
            \<and> validateTask now (t\<lparr>documents := filter (\<lambda>i. \<not> i = objectId did) (documents t)\<rparr>))
     \<and> (succeeded r \<longrightarrow>
            uploads s' = filter (\<lambda>f. f \<noteq> filePath d) (uploads s)
            \<and> findTask (tasks s') (objectId pid) = Some (t\<lparr>documents := filter (\<lambda>i. \<not> i = objectId did) (documents t)\<rparr>)
            \<and> taskDocuments s' = deleteFirst (\<lambda>x. doc_id x = objectId did) (taskDocuments s)
            \<and> users s' = users s \<and> ev = [])"
proof -
  have did: "doc_id d = objectId did" using findOneDocument_set [OF d] by simp
  have tid: "task_id t = objectId pid" using findTask_id [OF t] .
  let ?t1 = "t\<lparr>documents := filter (\<lambda>i. \<not> i = objectId did) (documents t)\<rparr>"
  show ?thesis
  proof (cases "canRemoveDocument p t d")
    case False
    then have "delete_document now s p pid did =
        (Fail 403 ''Access denied. You can only delete documents you uploaded or from tasks you created.'', s, [])"
      using ids t d by (simp add: delete_document_def canRemoveDocument_def)
    then show ?thesis using r False by (simp add: succeeded_def statusOf_def)
  next
    case True
    then have perm: "\<not> (role p \<noteq> ''admin'' \<and> \<not> createdBy t = user_id p \<and> \<not> uploadedBy d = user_id p)"
      by (auto simp: canRemoveDocument_def)
    show ?thesis
    proof (cases "validateTask now ?t1")
      case False
      then have "delete_document now s p pid did =
          (Fail 500 ''Error deleting document'', s\<lparr>uploads := unlink (filePath d) (uploads s)\<rparr>, [])"
        using ids t d perm did by (simp add: delete_document_def saveTask_def Let_def)
      then show ?thesis using r True False by (auto simp: succeeded_def statusOf_def)
    next
      case v: True
      define ts where "ts = map (\<lambda>x. if task_id x = task_id ?t1 then ?t1 else x) (tasks s)"
      have sv: "saveTask now ?t1 (tasks s) = Some ts" using v by (simp add: saveTask_def ts_def)
      have "delete_document now s p pid did =
          (Ok 200 (), s\<lparr>uploads := unlink (filePath d) (uploads s), tasks := ts,
             taskDocuments := deleteFirst (\<lambda>x. doc_id x = objectId did) (taskDocuments s)\<rparr>, [])"
        using ids t d perm did sv by (simp add: delete_document_def Let_def)
      then have res: "r = Ok 200 ()" "s' = s\<lparr>uploads := unlink (filePath d) (uploads s), tasks := ts,
             taskDocuments := deleteFirst (\<lambda>x. doc_id x = objectId did) (taskDocuments s)\<rparr>" "ev = []"
        using r by simp_all
      have "findTask ts (objectId pid) = Some ?t1"
        using findTask_saveTask [OF sv, of "objectId pid"] t tid by simp
      moreover have "unlink (filePath d) (uploads s) = filter (\<lambda>f. f \<noteq> filePath d) (uploads s)"
        by (rule unlink_filter)
      ultimately show ?thesis using res True v by (simp add: succeeded_def statusOf_def)
    qed
  qed
qed

subsection \<open>Rejected and failing updates\<close>

lemma update_task_cases:
  assumes "update_task L now gen s u pid b files = (r, s', ev)"
  obtains (refused) c m where "uploadScan 0 files = Some (c, m)" "r = Fail c m" "s' = s" "ev = []"
  | (handled) "uploadScan 0 files = None"
      "update_handler L now gen (s\<lparr>uploads := uploads s @ map file_path files\<rparr>) u pid b files = (r, s', ev)"
  using assms by (cases "uploadScan 0 files") (auto simp: update_task_def)

lemma update_over_limit:
  assumes r: "update_task L now gen s u pid b files = (r, s', ev)"
    and ne: "files \<noteq> []"
    and over: "countDocuments (taskDocuments s) (objectId pid) + length files > 3"
  shows "\<not> succeeded r" and "taskDocuments s' = taskDocuments s"
    and "map_option documents (findTask (tasks s') i) = map_option documents (findTask (tasks s) i)"
    and "uploadScan 0 files = None \<Longrightarrow> updateValid L pid b \<Longrightarrow> findTask (tasks s) (objectId pid) = Some t
        \<Longrightarrow> \<not> updateDenied u t \<Longrightarrow> \<not> assigneeMissing (users s) (b_assignedTo b)
        \<Longrightarrow> applyBody L b t = Some t1 \<Longrightarrow> validateTask now t1
        \<Longrightarrow> r = Fail 400 ''Maximum 3 documents allowed per task''"
proof -
  let ?s1 = "s\<lparr>uploads := uploads s @ map file_path files\<rparr>"
  have main: "\<not> succeeded r \<and> taskDocuments s' = taskDocuments s
     \<and> map_option documents (findTask (tasks s') i) = map_option documents (findTask (tasks s) i)"
    using r
  proof (cases rule: update_task_cases)
    case (refused c m)
    then show ?thesis by (simp add: succeeded_def)
  next
    case handled
    from handled(2) show ?thesis
    proof (cases rule: update_handler_cases)
      case stopped
      then show ?thesis by simp
    next
      case (saved t t1 ts)
      note k = applyBody_keeps [OF saved(5)]
      have tid: "task_id t = objectId pid" using findTask_id [OF saved(2)] by simp
      have "update_documents L now gen (?s1\<lparr>tasks := ts\<rparr>) u (assignedTo t) t1 files
          = (Fail 400 ''Maximum 3 documents allowed per task'', ?s1\<lparr>tasks := ts\<rparr>, [])"
        using ne over k tid by (simp add: update_documents_def)
      then have res: "r = Fail 400 ''Maximum 3 documents allowed per task''" "s' = ?s1\<lparr>tasks := ts\<rparr>"
        using saved(7) by simp_all
      have "findTask ts i = (if i = objectId pid then Some t1 else findTask (tasks s) i)"
        using findTask_saveTask [OF saved(6), of i] saved(2) k tid by simp
      then show ?thesis using res saved(2) k by (simp add: succeeded_def)
    qed
  qed
  show "\<not> succeeded r" and "taskDocuments s' = taskDocuments s"
    and "map_option documents (findTask (tasks s') i) = map_option documents (findTask (tasks s) i)"
    using main by simp_all
  show "r = Fail 400 ''Maximum 3 documents allowed per task''"
    if h: "uploadScan 0 files = None" "updateValid L pid b" "findTask (tasks s) (objectId pid) = Some t"
      "\<not> updateDenied u t" "\<not> assigneeMissing (users s) (b_assignedTo b)"
      "applyBody L b t = Some t1" "validateTask now t1"
  proof -
    note k = applyBody_keeps [OF h(6)]
    have tid: "task_id t = objectId pid" using findTask_id [OF h(3)] by simp
    have sv: "saveTask now t1 (tasks ?s1) = Some (map (\<lambda>x. if task_id x = task_id t1 then t1 else x) (tasks s))"
      using h(7) by (simp add: saveTask_def)
    have "update_task L now gen s u pid b files
        = update_documents L now gen (?s1\<lparr>tasks := map (\<lambda>x. if task_id x = task_id t1 then t1 else x) (tasks s)\<rparr>)
            u (assignedTo t) t1 files"
      using h sv by (simp add: update_task_def update_handler_def)
    also have "\<dots> = (Fail 400 ''Maximum 3 documents allowed per task'',
        ?s1\<lparr>tasks := map (\<lambda>x. if task_id x = task_id t1 then t1 else x) (tasks s)\<rparr>, [])"
      using ne over k tid by (simp add: update_documents_def)
    finally show ?thesis using r by simp
  qed
qed

lemma create_over_limit:
  assumes "length files > 3"
  shows "\<exists>c m. create_task L now gen s u b files = (Fail c m, s, [])"
proof (cases "uploadScan 0 files")
  case None
  then show ?thesis using uploadScan_length [OF None] assms by simp
next
  case (Some a)
  then show ?thesis by (cases a) (simp add: create_task_def)
qed

lemma overdue_update:
  assumes r: "update_task L now gen s u pid b files = (r, s', ev)"
    and t: "findTask (tasks s) (objectId pid) = Some t" and d: "dueDate t = Some d" "d \<le> now"
    and nb: "case b_dueDate b of None \<Rightarrow> True
             | Some x \<Rightarrow> if x = [] then \<not> isISO8601 L x
                        else (case parseDate L x of None \<Rightarrow> True | Some d' \<Rightarrow> d' \<le> now)"
  shows "\<not> succeeded r" and "tasks s' = tasks s" and "taskDocuments s' = taskDocuments s" and "ev = []"
    and "uploadScan 0 files = None \<Longrightarrow> updateValid L pid b \<Longrightarrow> \<not> updateDenied u t
        \<Longrightarrow> \<not> assigneeMissing (users s) (b_assignedTo b) \<Longrightarrow> r = Fail 500 ''Error updating task''"
proof -
  let ?s1 = "s\<lparr>uploads := uploads s @ map file_path files\<rparr>"
  have nosave: "saveTask now t1 ts = None"
    if v: "updateValid L pid b" and ab: "applyBody L b t = Some t1" for t1 ts
  proof -
    from applyBody_dueDate [OF ab] have du: "dueUpdate L (b_dueDate b) (dueDate t) = Some (dueDate t1)" .
    have "\<exists>d'. dueDate t1 = Some d' \<and> d' \<le> now"
    proof (cases "b_dueDate b")
      case None
      then have "dueDate t1 = Some d" using du d(1) by (simp add: dueUpdate_def)
      then show ?thesis using d(2) by simp
    next
      case (Some x)
      have "x \<noteq> []"
        using v nb Some by (auto simp: updateValid_def bodyValid_def optional_def)
      then show ?thesis
        using du nb Some by (auto simp: dueUpdate_def split: option.splits if_splits)
    qed
    then show ?thesis by (auto simp: saveTask_def validateTask_def)
  qed
  have hres: "s' = ?s1 \<and> \<not> succeeded r \<and> ev = []
     \<and> (updateValid L pid b \<longrightarrow> \<not> updateDenied u t \<longrightarrow> \<not> assigneeMissing (users s) (b_assignedTo b)
          \<longrightarrow> r = Fail 500 ''Error updating task'')"
    if h: "update_handler L now gen ?s1 u pid b files = (r, s', ev)"
  proof (cases "updateValid L pid b")
    case False
    then show ?thesis using h by (auto simp: update_handler_def succeeded_def)
  next
    case v: True
    show ?thesis
    proof (cases "applyBody L b t")
      case None
      then show ?thesis using h t
        by (auto simp: update_handler_def succeeded_def split: if_splits)
    next
      case (Some t1)
      then show ?thesis using h t nosave [OF v Some]
        by (auto simp: update_handler_def succeeded_def split: if_splits)
    qed
  qed
  have main: "\<not> succeeded r \<and> tasks s' = tasks s \<and> taskDocuments s' = taskDocuments s \<and> ev = []
     \<and> (uploadScan 0 files = None \<longrightarrow> updateValid L pid b \<longrightarrow> \<not> updateDenied u t
          \<longrightarrow> \<not> assigneeMissing (users s) (b_assignedTo b) \<longrightarrow> r = Fail 500 ''Error updating task'')"
    using r
  proof (cases rule: update_task_cases)
    case (refused c m)
    then show ?thesis by (simp add: succeeded_def)
  next
    case handled
    then show ?thesis using hres by auto
  qed
  show "\<not> succeeded r" and "tasks s' = tasks s" and "taskDocuments s' = taskDocuments s" and "ev = []"
    using main by simp_all
  show "uploadScan 0 files = None \<Longrightarrow> updateValid L pid b \<Longrightarrow> \<not> updateDenied u t
        \<Longrightarrow> \<not> assigneeMissing (users s) (b_assignedTo b) \<Longrightarrow> r = Fail 500 ''Error updating task''"
    using main by simp
qed

subsection \<open>The list query\<close>

lemma whenSet_all:
  "list_all P (whenSet v f) = whenGiven v (\<lambda>x. list_all P (f x))"
  by (auto simp: whenSet_def whenGiven_def split: option.splits)

lemma own_matches:
  "list_all (matches L t) (if role u \<noteq> ''admin''
      then [AnyOf [AssignedTo (ObjectId (user_id u)), CreatedBy (ObjectId (user_id u))]]
      else []) \<longleftrightarrow> canView u t"
  by (auto simp: canView_def)

lemma due_matches:
  assumes "list_all castable (if truthy a \<or> truthy b then [DueDate (dateBound L a) (dateBound L b)] else [])"
  shows "list_all (matches L t) (if truthy a \<or> truthy b then [DueDate (dateBound L a) (dateBound L b)] else [])
     \<longleftrightarrow> whenGiven a (\<lambda>x. case (parseDate L x, dueDate t) of (Some a, Some d) \<Rightarrow> a \<le> d | _ \<Rightarrow> False)
       \<and> whenGiven b (\<lambda>x. case (parseDate L x, dueDate t) of (Some b, Some d) \<Rightarrow> d \<le> b | _ \<Rightarrow> False)"
  using assms
  by (cases a; cases b; cases "dueDate t")
     (auto simp: whenGiven_def truthy_def dateBound_def split: option.splits if_splits)

lemma build_query_matches:
  assumes "list_all castable (build_query L u q)"
  shows "list_all (matches L t) (build_query L u q) \<longleftrightarrow> canView u t \<and> passesFilters L q t"
proof -
  have h: "whenGiven (q_assignedTo q) (\<lambda>x. list_all castable [AssignedTo (Str x)])
      \<and> whenGiven (q_createdBy q) (\<lambda>x. list_all castable [CreatedBy (Str x)])
      \<and> list_all castable (if truthy (q_dueDateFrom q) \<or> truthy (q_dueDateTo q)
        then [DueDate (dateBound L (q_dueDateFrom q)) (dateBound L (q_dueDateTo q))] else [])"
    using assms unfolding build_query_def list_all_append whenSet_all by blast
  have c1: "whenGiven (q_assignedTo q) isMongoId"
    using h by (auto simp: whenGiven_def split: option.splits if_splits)
  have c2: "whenGiven (q_createdBy q) isMongoId"
    using h by (auto simp: whenGiven_def split: option.splits if_splits)
  have c3: "list_all castable (if truthy (q_dueDateFrom q) \<or> truthy (q_dueDateTo q)
        then [DueDate (dateBound L (q_dueDateFrom q)) (dateBound L (q_dueDateTo q))] else [])"
    using h by blast
  have a: "whenGiven (q_assignedTo q) (\<lambda>x. list_all (matches L t) [AssignedTo (Str x)])
      = whenGiven (q_assignedTo q) (\<lambda>x. assignedTo t = Some (objectId x))"
    using c1 by (auto simp: whenGiven_def split: option.splits)
  have b: "whenGiven (q_createdBy q) (\<lambda>x. list_all (matches L t) [CreatedBy (Str x)])
      = whenGiven (q_createdBy q) (\<lambda>x. createdBy t = objectId x)"
    using c2 by (auto simp: whenGiven_def split: option.splits)
  show ?thesis
    unfolding build_query_def list_all_append whenSet_all own_matches due_matches [OF c3] a b
      passesFilters_def
    by (simp add: conj_ac)
qed

lemma list_tasks_rule:
  "list_tasks L s u q =
     (if list_all castable (build_query L u q)
      then Ok 200
        (map (populate s)
           (cursor L (q_sortBy q) (if q_sortOrder q = ''asc'' then 1 else - 1)
              ((q_page q - 1) * q_limit q) (q_limit q)
              (filter (\<lambda>t. canView u t \<and> passesFilters L q t) (tasks s))),
         length (filter (\<lambda>t. canView u t \<and> passesFilters L q t) (tasks s)))
      else Fail 500 ''Error fetching tasks'')"
  by (simp add: list_tasks_def findTasks_def build_query_matches Let_def cong: filter_cong)

lemma run_requests1: "run lib0 requests1 = store1"
  by code_simp



section \<open>The claims\<close>

text \<open>
  \<^bold>\<open>C1.\<close> The claim is that reading an existing task is answered with 403 for every
  principal who is neither an admin, nor the creator, nor the assignee of the task. The
  handler reads the task with its references populated and calls \<^verbatim>\<open>equals\<close> on the
  populated creator without a guard (line 290): when the account of the creator has
  been deleted that reference is null, the call throws, and the reply is a 500 with
  the message of the TypeError. In \<open>store3\<close>, the store after \<open>requests3\<close> (Alice
  creates a task for Bob, then the administrator deletes Alice's account), Carol, who
  is none of the three, is answered with 500. Before the deletion, in \<open>store1\<close>, she
  was answered with 403, and the delete route, which tests the reference as stored,
  answers her with 403 in \<open>store3\<close> as well.
\<close>

theorem read_after_creator_deleted:
  "run lib0 requests3 = store3
   \<and> findTask (tasks store3) tid0 = Some task1
   \<and> findUser (users store3) (user_id carol) = Some carol
   \<and> \<not> canView carol task1
   \<and> get_task lib0 store1 carol tid0
       = Fail 403 ''Access denied. You can only view tasks assigned to you or created by you.''
   \<and> get_task lib0 store3 carol tid0 = Fail 500 (typeErrorMessage lib0)
   \<and> fst (delete_task store3 carol tid0)
       = Fail 403 ''Access denied. Only task creators and admins can delete tasks.''"
  by code_simp

text \<open>
  \<^bold>\<open>C2.\<close> For every principal and every existing task, deleting the task succeeds
  exactly when the principal is an admin or the creator of the task. Anyone else is
  answered with 403 and nothing changes; in particular a principal who is only the
  assignee is denied, although the same principal (whose account exists, since the
  request is authenticated) may read the task. A deletion that
  succeeds takes the task out of the collection, together with every document record
  of the task and the files of these records, changes nothing else, and emits no
  event. (The identifier of the request is cast: an upper-case spelling names the same
  task.)
\<close>

theorem delete_rule:
  assumes "isMongoId pid" and "findTask (tasks s) (objectId pid) = Some t"
  shows "(succeeded (fst (delete_task s p pid)) \<longleftrightarrow> canDelete p t)
     \<and> (\<not> canDelete p t \<longrightarrow>
          delete_task s p pid =
            (Fail 403 ''Access denied. Only task creators and admins can delete tasks.'', s, []))
     \<and> (canDelete p t \<longrightarrow>
          delete_task s p pid =
            (Ok 200 (),
             s\<lparr>uploads :=
                 filter (\<lambda>f. f \<notin> set (map filePath
                                  (filter (\<lambda>d. taskId d = objectId pid) (taskDocuments s))))
                   (uploads s),
               taskDocuments := filter (\<lambda>d. taskId d \<noteq> objectId pid) (taskDocuments s),
               tasks := remove1 t (tasks s)\<rparr>,
             []))
     \<and> (assignedTo t = Some (user_id p) \<and> \<not> canDelete p t
          \<and> findUser (users s) (user_id p) \<noteq> None \<longrightarrow>
          statusOf (fst (delete_task s p pid)) = 403 \<and> get_task L s p pid = Ok 200 (populate s t))"
proof -
  have tid: "task_id t = objectId pid" using findTask_id [OF assms(2)] .
  have denied: "delete_task s p pid =
      (Fail 403 ''Access denied. Only task creators and admins can delete tasks.'', s, [])"
    if "\<not> canDelete p t"
    using that assms by (simp add: delete_task_def canDelete_def)
  have fd: "find (\<lambda>x. task_id x = objectId pid) (tasks s) = Some t"
    using assms(2) by (simp add: findTask_def)
  have gone: "delete_task s p pid =
      (Ok 200 (),
       s\<lparr>uploads :=
           filter (\<lambda>f. f \<notin> set (map filePath
                            (filter (\<lambda>d. taskId d = objectId pid) (taskDocuments s))))
             (uploads s),
         taskDocuments := filter (\<lambda>d. taskId d \<noteq> objectId pid) (taskDocuments s),
         tasks := remove1 t (tasks s)\<rparr>,
       [])"
    if "canDelete p t"
  proof -
    have "\<not> (role p \<noteq> ''admin'' \<and> \<not> createdBy t = user_id p)"
      using that by (auto simp: canDelete_def)
    then show ?thesis
      using assms
      by (simp add: delete_task_def Let_def foldl_unlink deleteFirst_remove1 [OF fd]
            findDocuments_def deleteMany_def tid)
  qed
  have view: "statusOf (fst (delete_task s p pid)) = 403 \<and> get_task L s p pid = Ok 200 (populate s t)"
    if "assignedTo t = Some (user_id p) \<and> \<not> canDelete p t \<and> findUser (users s) (user_id p) \<noteq> None"
  proof -
    have "canView p t" using that by (simp add: canView_def)
    then have "get_task L s p pid = Ok 200 (populate s t)"
      using get_task_rule(1) [OF assms] that by blast
    then show ?thesis using denied that by (simp add: statusOf_def)
  qed
  have iff: "succeeded (fst (delete_task s p pid)) \<longleftrightarrow> canDelete p t"
    using denied gone by (cases "canDelete p t") (simp_all add: succeeded_def)
  show ?thesis using iff denied gone view by blast
qed

theorem delete_rule_witness:
  "isMongoId ''64C000000000000000000000''
   \<and> findTask (tasks store1) (objectId ''64C000000000000000000000'') = Some task1
   \<and> assignedTo task1 = Some (user_id bob) \<and> \<not> canDelete bob task1
   \<and> findUser (users store1) (user_id bob) \<noteq> None
   \<and> delete_task store1 bob ''64C000000000000000000000''
       = (Fail 403 ''Access denied. Only task creators and admins can delete tasks.'', store1, [])
   \<and> get_task lib0 store1 bob ''64C000000000000000000000'' = Ok 200 (populate store1 task1)
   \<and> canDelete alice task1
   \<and> delete_task store1 alice ''64C000000000000000000000'' = (Ok 200 (), store0, [])"
proof -
  let ?i = "''64C000000000000000000000''"
  have h1: "isMongoId ?i" by code_simp
  have h2: "findTask (tasks store1) (objectId ?i) = Some task1" by code_simp
  have a: "assignedTo task1 = Some (user_id bob)" by code_simp
  have nb: "\<not> canDelete bob task1" by code_simp
  have ub: "findUser (users store1) (user_id bob) \<noteq> None" by code_simp
  have ca: "canDelete alice task1" by code_simp
  have e: "store1\<lparr>uploads :=
                 filter (\<lambda>f. f \<notin> set (map filePath
                                  (filter (\<lambda>d. taskId d = objectId ?i) (taskDocuments store1))))
                   (uploads store1),
               taskDocuments := filter (\<lambda>d. taskId d \<noteq> objectId ?i) (taskDocuments store1),
               tasks := remove1 task1 (tasks store1)\<rparr> = store0"
    by code_simp
  note tb = delete_rule [OF h1 h2, of bob lib0]
  note ta = delete_rule [OF h1 h2, of alice lib0]
  from tb nb have b: "delete_task store1 bob ?i
       = (Fail 403 ''Access denied. Only task creators and admins can delete tasks.'', store1, [])"
    by blast
  from tb a nb ub have v: "get_task lib0 store1 bob ?i = Ok 200 (populate store1 task1)" by blast
  from ta ca have d: "delete_task store1 alice ?i = (Ok 200 (), store0, [])"
    unfolding e by blast
  show ?thesis using h1 h2 a nb ub b v ca d by blast
qed

text \<open>
  \<^bold>\<open>C3.\<close> After any sequence of requests, starting from the empty store, no task
  has more than three documents. An update that brings files although the documents
  the task has and the new files are more than three is refused, stores no document
  record and leaves the document list of every task as it was; when the request is
  otherwise in order, the refusal is the 400 "Maximum 3 documents allowed per task". A
  create request with more than three files is refused by the upload middleware and
  changes nothing.
\<close>

theorem document_limit:
  "(\<forall>t \<in> set (tasks (run L rs)). length (documents t) \<le> 3)
   \<and> (files \<noteq> [] \<and> countDocuments (taskDocuments s) (objectId pid) + length files > 3
        \<and> update_task L now gen s p pid b files = (r, s', ev) \<longrightarrow>
          \<not> succeeded r \<and> taskDocuments s' = taskDocuments s
          \<and> (\<forall>i. map_option documents (findTask (tasks s') i)
                  = map_option documents (findTask (tasks s) i))
          \<and> (uploadScan 0 files = None \<and> updateValid L pid b \<and> findTask (tasks s) (objectId pid) = Some t
               \<and> \<not> updateDenied p t \<and> \<not> assigneeMissing (users s) (b_assignedTo b)
               \<and> applyBody L b t = Some t1 \<and> validateTask now t1 \<longrightarrow>
                 r = Fail 400 ''Maximum 3 documents allowed per task''))
   \<and> (length files > 3 \<longrightarrow> (\<exists>c m. create_task L now gen s p b files = (Fail c m, s, [])))"
proof (intro conjI ballI impI allI)
  fix x assume "x \<in> set (tasks (run L rs))"
  then show "length (documents x) \<le> 3"
    using consistent_length [OF run_consistent] by blast
next
  assume h: "files \<noteq> [] \<and> countDocuments (taskDocuments s) (objectId pid) + length files > 3
        \<and> update_task L now gen s p pid b files = (r, s', ev)"
  then have u: "update_task L now gen s p pid b files = (r, s', ev)" and ne: "files \<noteq> []"
    and over: "countDocuments (taskDocuments s) (objectId pid) + length files > 3" by simp_all
  note ol = update_over_limit [OF u ne over]
  show "\<not> succeeded r" by (rule ol(1))
  show "taskDocuments s' = taskDocuments s" by (rule ol(2))
  show "map_option documents (findTask (tasks s') i) = map_option documents (findTask (tasks s) i)" for i
    by (rule ol(3))
  show "r = Fail 400 ''Maximum 3 documents allowed per task''"
    if "uploadScan 0 files = None \<and> updateValid L pid b \<and> findTask (tasks s) (objectId pid) = Some t
               \<and> \<not> updateDenied p t \<and> \<not> assigneeMissing (users s) (b_assignedTo b)
               \<and> applyBody L b t = Some t1 \<and> validateTask now t1"
    using that ol(4) [of t t1] by blast
next
  assume "length files > 3"
  then show "\<exists>c m. create_task L now gen s p b files = (Fail c m, s, [])"
    by (rule create_over_limit)
qed

theorem document_limit_witness:
  "task1 \<in> set (tasks (run lib0 requests1)) \<and> length (documents task1) \<le> 3
   \<and> [pdf ''c'', pdf ''d''] \<noteq> []
   \<and> countDocuments (taskDocuments store1) (objectId tid0) + length [pdf ''c'', pdf ''d''] > 3
   \<and> fst (update_task lib0 1009843200000 gen1 store1 alice tid0 noBody [pdf ''c'', pdf ''d''])
       = Fail 400 ''Maximum 3 documents allowed per task''
   \<and> taskDocuments (fst (snd (update_task lib0 1009843200000 gen1 store1 alice tid0 noBody [pdf ''c'', pdf ''d''])))
       = taskDocuments store1
   \<and> length [pdf ''a'', pdf ''b'', pdf ''c'', pdf ''d''] > 3
   \<and> \<not> succeeded (fst (create_task lib0 1009843200000 gen1 store1 alice body0 [pdf ''a'', pdf ''b'', pdf ''c'', pdf ''d'']))"
proof -
  let ?fs = "[pdf ''c'', pdf ''d'']"
  let ?gs = "[pdf ''a'', pdf ''b'', pdf ''c'', pdf ''d'']"
  let ?u = "update_task lib0 1009843200000 gen1 store1 alice tid0 noBody ?fs"
  have m: "task1 \<in> set (tasks (run lib0 requests1))" by (simp add: run_requests1) code_simp
  have ne: "?fs \<noteq> []" by simp
  have over: "countDocuments (taskDocuments store1) (objectId tid0) + length ?fs > 3" by code_simp
  have u: "?u = (fst ?u, fst (snd ?u), snd (snd ?u))" by simp
  have pre: "uploadScan 0 ?fs = None \<and> updateValid lib0 tid0 noBody \<and> findTask (tasks store1) (objectId tid0) = Some task1
      \<and> \<not> updateDenied alice task1 \<and> \<not> assigneeMissing (users store1) (b_assignedTo noBody)
      \<and> applyBody lib0 noBody task1 = Some task1 \<and> validateTask 1009843200000 task1"
    by code_simp
  have big: "length ?gs > 3" by simp
  note th = document_limit [of lib0 requests1 ?fs store1 tid0 1009843200000 gen1 alice noBody
      "fst ?u" "fst (snd ?u)" "snd (snd ?u)" task1 task1]
  have a: "length (documents task1) \<le> 3" using th m by blast
  have b: "fst ?u = Fail 400 ''Maximum 3 documents allowed per task''
      \<and> taskDocuments (fst (snd ?u)) = taskDocuments store1"
    using th ne over u pre by blast
  from document_limit [of lib0 requests1 ?gs store1 tid0 1009843200000 gen1 alice body0] big
  obtain c m where "create_task lib0 1009843200000 gen1 store1 alice body0 ?gs = (Fail c m, store1, [])"
    by blast
  then have c: "\<not> succeeded (fst (create_task lib0 1009843200000 gen1 store1 alice body0 ?gs))"
    by (simp add: succeeded_def)
  show ?thesis using m a ne over b big c by blast
qed

text \<open>
  \<^bold>\<open>C4.\<close> The claim is that an update refused for exceeding the document limit
  leaves the stored fields of the task unchanged. The handler saves the fields before
  it counts the documents: in \<open>store1\<close>, the store after \<open>requests1\<close>, Alice renames
  her task, which has two documents, and sends two more files; the reply is the 400 of the document limit, and the stored title is
  the new one.
\<close>

theorem limit_rejection_saves_fields:
  "run lib0 requests1 = store1
   \<and> fst (update_task lib0 1009843200000 gen1 store1 alice tid0
          (noBody\<lparr>b_title := Some ''T2''\<rparr>) [pdf ''c'', pdf ''d''])
     = Fail 400 ''Maximum 3 documents allowed per task''
   \<and> map_option title (findTask (tasks store1) tid0) = Some ''T1''
   \<and> map_option title
        (findTask (tasks (fst (snd (update_task lib0 1009843200000 gen1 store1 alice tid0
            (noBody\<lparr>b_title := Some ''T2''\<rparr>) [pdf ''c'', pdf ''d''])))) tid0) = Some ''T2''"
  by code_simp


text \<open>
  \<^bold>\<open>C5.\<close> The claim is that an update emits \<^verbatim>\<open>taskAssigned\<close> only when the
  assignee changes (to a user other than the updater), and \<^verbatim>\<open>taskUpdated\<close> to the
  assignee. The handler reads the new assignee after it has populated the reference
  (lines 584 and 590): what it compares with the old identifier, and what it names the
  room with, is the printed user record. In \<open>store1\<close>, the store after \<open>requests1\<close>,
  Alice sets the status of her task and leaves the assignee, Bob, as he is: the update
  emits \<^verbatim>\<open>taskAssigned\<close> all the same, and sends both events to a room that is not
  Bob's (a socket joins the room of its user identifier).
\<close>

theorem unchanged_assignee_notified:
  "run lib0 requests1 = store1
   \<and> map_option assignedTo (findTask (tasks store1) tid0) = Some (Some (user_id bob))
   \<and> b_assignedTo (noBody\<lparr>b_status := Some ''in_progress''\<rparr>) = None
   \<and> (let s' = store1\<lparr>tasks := [task1\<lparr>status := ''in_progress''\<rparr>]\<rparr>;
           v = populate s' (task1\<lparr>status := ''in_progress''\<rparr>);
           n = inspectRef lib0 (user_id bob) (email bob)
       in update_task lib0 1009843200000 gen1 store1 alice tid0
            (noBody\<lparr>b_status := Some ''in_progress''\<rparr>) []
          = (Ok 200 v, s', [TaskAssigned (room n) v (email alice), TaskUpdated (room n) v])
          \<and> v_assignedTo v = Some (user_id bob, email bob)
          \<and> room n \<noteq> room (user_id bob))"
  by code_simp

text \<open>
  \<^bold>\<open>C6.\<close> A task that a create request returns has the requesting principal as
  \<^verbatim>\<open>createdBy\<close>, whatever the body holds, and is stored as returned; every task that
  the request adds to the store has that creator. An update request, successful or not,
  leaves the creator of every stored task as it was. In a store reached from the empty
  one, no request changes the creator of a task that is there before and after it.
\<close>

theorem createdBy_fixed:
  "(create_task L now gen s p b files = (r, s', ev) \<longrightarrow>
      (\<forall>c v. r = Ok c v \<longrightarrow> createdBy (v_task v) = user_id p
              \<and> findTask (tasks s') (task_id (v_task v)) = Some (v_task v))
      \<and> (\<forall>i t. findTask (tasks s') i = Some t \<longrightarrow>
             findTask (tasks s) i = Some t \<or> createdBy t = user_id p))
   \<and> (update_task L now' gen' s p' pid b' files' = (r', s'', ev') \<longrightarrow>
        (\<forall>i. map_option createdBy (findTask (tasks s'') i)
             = map_option createdBy (findTask (tasks s) i)))
   \<and> (findTask (tasks (run L rs)) j = Some x \<and> findTask (tasks (step L (run L rs) rq)) j = Some x'
        \<longrightarrow> createdBy x' = createdBy x)"
proof -
  have cr: "(\<forall>c v. r = Ok c v \<longrightarrow> createdBy (v_task v) = user_id p
              \<and> findTask (tasks s') (task_id (v_task v)) = Some (v_task v))
      \<and> (\<forall>i t. findTask (tasks s') i = Some t \<longrightarrow>
             findTask (tasks s) i = Some t \<or> createdBy t = user_id p)"
    if "create_task L now gen s p b files = (r, s', ev)"
    using create_task_tasks [OF that] by blast
  have up: "\<forall>i. map_option createdBy (findTask (tasks s'') i)
             = map_option createdBy (findTask (tasks s) i)"
    if "update_task L now' gen' s p' pid b' files' = (r', s'', ev')"
    using that update_task_creators by blast
  have st: "createdBy x' = createdBy x"
    if "findTask (tasks (run L rs)) j = Some x \<and> findTask (tasks (step L (run L rs) rq)) j = Some x'"
    using that step_creator [OF run_consistent] by blast
  show ?thesis using cr up st by blast
qed

theorem createdBy_fixed_witness:
  "create_task lib0 946684800000 gen0 store0 alice body0 [pdf ''a'', pdf ''b'']
     = (Ok 201 (populate store1 task1), store1, [TaskAssigned (room (user_id bob)) (populate store1 task1) (email alice)])
   \<and> b_createdBy body0 = Some (user_id carol)
   \<and> createdBy task1 = user_id alice
   \<and> findTask (tasks store1) (task_id task1) = Some task1
   \<and> map_option createdBy
        (findTask (tasks (fst (snd (update_task lib0 1009843200000 gen1 store1 bob tid0
            (noBody\<lparr>b_status := Some ''completed'', b_createdBy := Some (user_id carol)\<rparr>) [])))) tid0)
       = Some (user_id alice)
   \<and> findTask (tasks (run lib0 requests1)) tid0 = Some task1
   \<and> findTask (tasks (step lib0 (run lib0 requests1)
        (DeleteDocument 1009843200000 alice tid0 (gen0 1)))) tid0
       = Some (task1\<lparr>documents := [gen0 2]\<rparr>)
   \<and> createdBy (task1\<lparr>documents := [gen0 2]\<rparr>) = createdBy task1"
proof -
  let ?b = "noBody\<lparr>b_status := Some ''completed'', b_createdBy := Some (user_id carol)\<rparr>"
  let ?u = "update_task lib0 1009843200000 gen1 store1 bob tid0 ?b []"
  let ?rq = "DeleteDocument 1009843200000 alice tid0 (gen0 1)"
  have c: "create_task lib0 946684800000 gen0 store0 alice body0 [pdf ''a'', pdf ''b'']
     = (Ok 201 (populate store1 task1), store1, [TaskAssigned (room (user_id bob)) (populate store1 task1) (email alice)])"
    by code_simp
  have p: "b_createdBy body0 = Some (user_id carol)" by code_simp
  have u: "?u = (fst ?u, fst (snd ?u), snd (snd ?u))" by simp
  have o: "map_option createdBy (findTask (tasks store1) tid0) = Some (user_id alice)" by code_simp
  have f1: "findTask (tasks (run lib0 requests1)) tid0 = Some task1"
    unfolding run_requests1 by code_simp
  have f2: "findTask (tasks (step lib0 (run lib0 requests1) ?rq)) tid0 = Some (task1\<lparr>documents := [gen0 2]\<rparr>)"
    unfolding run_requests1 by code_simp
  note th1 = createdBy_fixed [where s = store0 and L = lib0 and now = 946684800000 and gen = gen0
      and p = alice and b = body0 and files = "[pdf ''a'', pdf ''b'']" and r = "Ok 201 (populate store1 task1)"
      and s' = store1 and ev = "[TaskAssigned (room (user_id bob)) (populate store1 task1) (email alice)]",
      THEN conjunct1, THEN mp, OF c]
  from th1 have "\<forall>c v. Ok 201 (populate store1 task1) = Ok c v \<longrightarrow>
      createdBy (v_task v) = user_id alice
      \<and> findTask (tasks store1) (task_id (v_task v)) = Some (v_task v)" ..
  then have "createdBy (v_task (populate store1 task1)) = user_id alice
      \<and> findTask (tasks store1) (task_id (v_task (populate store1 task1)))
          = Some (v_task (populate store1 task1))"
    by (elim allE impE) (rule refl)
  then have a: "createdBy task1 = user_id alice \<and> findTask (tasks store1) (task_id task1) = Some task1"
    by (simp only: v_task_populate)
  note th2 = createdBy_fixed [where s = store1 and L = lib0 and now' = 1009843200000 and gen' = gen1
      and p' = bob and pid = tid0 and b' = ?b and files' = "[]" and r' = "fst ?u"
      and s'' = "fst (snd ?u)" and ev' = "snd (snd ?u)", THEN conjunct2, THEN conjunct1, THEN mp, OF u]
  from th2 have "map_option createdBy (findTask (tasks (fst (snd ?u))) tid0)
       = map_option createdBy (findTask (tasks store1) tid0)" ..
  then have d: "map_option createdBy (findTask (tasks (fst (snd ?u))) tid0) = Some (user_id alice)"
    using o by (rule trans)
  note th3 = createdBy_fixed [where L = lib0 and rs = requests1 and j = tid0 and x = task1
      and rq = ?rq and x' = "task1\<lparr>documents := [gen0 2]\<rparr>",
      THEN conjunct2, THEN conjunct2, THEN mp, OF conjI [OF f1 f2]]
  show ?thesis
    by (intro conjI) (rule c p d f1 f2 th3 | rule conjunct1 [OF a] | rule conjunct2 [OF a])+
qed



text \<open>
  \<^bold>\<open>C8.\<close> The claim is that the creator of a task may remove a document of it, and
  that the removal deletes the file, takes the identifier out of the document list of
  the task and saves the task. The handler deletes the file first and then saves the
  task, and the save runs the due date rule of the schema: for a task whose due date
  has passed the save fails, so no principal can remove a document of it, and the
  attempt has already deleted the file. In \<open>store4\<close>, the store after \<open>requests4\<close>
  (in 2000 Alice creates a task due in 2001, with one document), Alice removes the
  document in 2002: the reply is the 500 "Error deleting document", the file is gone,
  and the document record and the document list of the task are as before. The same
  request made before the due date succeeds, and deleting the whole task succeeds
  after it.
\<close>

theorem overdue_document_removal_fails:
  "run lib0 requests4 = store4
   \<and> findTask (tasks store4) tid0 = Some task4
   \<and> dueDate task4 = Some 978307200000 \<and> (978307200000 :: int) < 1009843200000
   \<and> findOneDocument (taskDocuments store4) (gen0 1) tid0
       = Some (newDocument (gen0 1) tid0 (user_id alice) (pdf ''a''))
   \<and> canRemoveDocument alice task4 (newDocument (gen0 1) tid0 (user_id alice) (pdf ''a''))
   \<and> uploads store4 = [''uploads/tasks/documents-a.pdf'']
   \<and> delete_document 1009843200000 store4 alice tid0 (gen0 1)
       = (Fail 500 ''Error deleting document'', store4\<lparr>uploads := []\<rparr>, [])
   \<and> delete_document 946684800001 store4 alice tid0 (gen0 1)
       = (Ok 200 (),
          store4\<lparr>uploads := [], tasks := [task4\<lparr>documents := []\<rparr>], taskDocuments := []\<rparr>, [])
   \<and> delete_task store4 alice tid0
       = (Ok 200 (), store4\<lparr>uploads := [], tasks := [], taskDocuments := []\<rparr>, [])"
  by code_simp

text \<open>
  \<^bold>\<open>C9.\<close> Deleting a task under an identifier that names no stored task changes
  nothing in the store (no task, document record or file is touched) and emits no
  event. The reply is a failure: 404 "Task not found" for a well-formed identifier (a
  string that is not an ObjectId is refused with 400 by the validation in front). The
  identifier names a task as the database reads it, without regard to the case of its
  digits.
\<close>

theorem delete_missing_task:
  assumes "findTask (tasks s) (objectId pid) = None"
  shows "snd (delete_task s p pid) = (s, [])
     \<and> \<not> succeeded (fst (delete_task s p pid))
     \<and> (isMongoId pid \<longrightarrow> delete_task s p pid = (Fail 404 ''Task not found'', s, []))
     \<and> (\<not> isMongoId pid \<longrightarrow> statusOf (fst (delete_task s p pid)) = 400)"
  using assms by (simp add: delete_task_def succeeded_def statusOf_def)

theorem delete_missing_task_witness:
  "findTask (tasks store1) (objectId ''64C00000000000000000000F'') = None
   \<and> isMongoId ''64C00000000000000000000F''
   \<and> delete_task store1 alice ''64C00000000000000000000F''
       = (Fail 404 ''Task not found'', store1, [])"
proof -
  have h: "findTask (tasks store1) (objectId ''64C00000000000000000000F'') = None" by code_simp
  have i: "isMongoId ''64C00000000000000000000F''" by code_simp
  from delete_missing_task [OF h, of alice] i
  have "delete_task store1 alice ''64C00000000000000000000F''
      = (Fail 404 ''Task not found'', store1, [])" by blast
  then show ?thesis using h i by blast
qed

text \<open>
  \<^bold>\<open>C10\<close> as stated (any update of a task whose stored due date is in the past
  fails) does not hold of an update that moves the due date into the future: the
  validator checks the date being saved. The task of \<open>store2\<close> (the store after
  \<open>requests2\<close>) was due in 2001; in 2002 Bob completes it and sets the due date to
  2999, and the update succeeds.
\<close>

theorem overdue_update_counterexample:
  "run lib0 requests2 = store2
   \<and> findTask (tasks store2) tid0 = Some task2 \<and> dueDate task2 = Some 978307200000
   \<and> (978307200000 :: int) < 1009843200000
   \<and> succeeded (fst (update_task lib0 1009843200000 gen1 store2 bob tid0
         (noBody\<lparr>b_status := Some ''completed'', b_dueDate := Some ''2999-01-01''\<rparr>) []))"
  by code_simp

text \<open>
  \<^bold>\<open>C10\<close> as amended. The due date rule is checked at every save of a task. For a
  stored task whose due date is not later than the current time, an update that sends
  no due date, or an empty one that the validation refuses, or one that does not parse
  to a time later than the current time, never succeeds: it leaves tasks and document records as they were and emits no event, and
  when the request passes the upload middleware, the validation, the permission check
  and the check of the assignee, the reply is the 500 "Error updating task" into which
  the handler turns the validation error. Removing a document of such a task fails in
  the same way, with the 500 "Error deleting document".
\<close>

theorem overdue_update_fails:
  assumes "findTask (tasks s) (objectId pid) = Some t" and "dueDate t = Some d" and "d \<le> now"
    and "case b_dueDate b of None \<Rightarrow> True
         | Some x \<Rightarrow> if x = [] then \<not> isISO8601 L x
                    else (case parseDate L x of None \<Rightarrow> True | Some d' \<Rightarrow> d' \<le> now)"
    and "update_task L now gen s p pid b files = (r, s', ev)"
  shows "\<not> succeeded r \<and> tasks s' = tasks s \<and> taskDocuments s' = taskDocuments s \<and> ev = []
     \<and> (uploadScan 0 files = None \<and> updateValid L pid b \<and> \<not> updateDenied p t
          \<and> \<not> assigneeMissing (users s) (b_assignedTo b) \<longrightarrow> r = Fail 500 ''Error updating task'')
     \<and> (isMongoId pid \<and> isMongoId did \<and> findOneDocument (taskDocuments s) (objectId did) (objectId pid) = Some x
          \<and> canRemoveDocument p t x \<longrightarrow>
            fst (delete_document now s p pid did) = Fail 500 ''Error deleting document'')"
proof -
  note o = overdue_update [OF assms(5) assms(1) assms(2) assms(3) assms(4)]
  have dd: "fst (delete_document now s p pid did) = Fail 500 ''Error deleting document''"
    if h: "isMongoId pid \<and> isMongoId did \<and> findOneDocument (taskDocuments s) (objectId did) (objectId pid) = Some x
          \<and> canRemoveDocument p t x"
  proof -
    have nv: "\<not> validateTask now (t\<lparr>documents := filter (\<lambda>i. \<not> i = objectId did) (documents t)\<rparr>)"
      using assms(2) assms(3) by (simp add: validateTask_def)
    obtain r2 s2 e2 where dl: "delete_document now s p pid did = (r2, s2, e2)"
      by (cases "delete_document now s p pid did") auto
    from h have h1: "isMongoId pid" and h2: "isMongoId did"
      and h3: "findOneDocument (taskDocuments s) (objectId did) (objectId pid) = Some x" and h4: "canRemoveDocument p t x"
      by simp_all
    have did: "doc_id x = objectId did" using findOneDocument_set [OF h3] by simp
    have perm: "\<not> (role p \<noteq> ''admin'' \<and> \<not> createdBy t = user_id p \<and> \<not> uploadedBy x = user_id p)"
      using h4 by (auto simp: canRemoveDocument_def)
    show ?thesis
      using h1 h2 assms(1) h3 perm nv did by (simp add: delete_document_def saveTask_def Let_def)
  qed
  show ?thesis using o dd by blast
qed

theorem overdue_update_fails_witness:
  "findTask (tasks store2) (objectId tid0) = Some task2 \<and> dueDate task2 = Some 978307200000
   \<and> (978307200000 :: int) \<le> 1009843200000
   \<and> b_dueDate (noBody\<lparr>b_status := Some ''completed''\<rparr>) = None
   \<and> update_task lib0 1009843200000 gen1 store2 bob tid0 (noBody\<lparr>b_status := Some ''completed''\<rparr>) []
       = (Fail 500 ''Error updating task'', store2, [])"
proof -
  let ?b = "noBody\<lparr>b_status := Some ''completed''\<rparr>"
  let ?u = "update_task lib0 1009843200000 gen1 store2 bob tid0 ?b []"
  have h1: "findTask (tasks store2) (objectId tid0) = Some task2" by code_simp
  have h2: "dueDate task2 = Some 978307200000" by code_simp
  have h3: "(978307200000 :: int) \<le> 1009843200000" by simp
  have nb: "b_dueDate ?b = None" by code_simp
  have h4: "case b_dueDate ?b of None \<Rightarrow> True
         | Some x \<Rightarrow> if x = [] then \<not> isISO8601 lib0 x
                    else (case parseDate lib0 x of None \<Rightarrow> True | Some d' \<Rightarrow> d' \<le> 1009843200000)"
    by (simp add: nb)
  have h5: "?u = (fst ?u, fst (snd ?u), snd (snd ?u))" by simp
  have pre: "uploadScan 0 [] = None \<and> updateValid lib0 tid0 ?b \<and> \<not> updateDenied bob task2
      \<and> \<not> assigneeMissing (users store2) (b_assignedTo ?b)"
    by code_simp
  have up: "uploads (fst (snd ?u)) = uploads store2 \<and> users (fst (snd ?u)) = users store2"
    by code_simp
  note th = overdue_update_fails [OF h1 h2 h3 h4 h5]
  from th pre have r: "fst ?u = Fail 500 ''Error updating task''" by blast
  from th have e: "tasks (fst (snd ?u)) = tasks store2 \<and> taskDocuments (fst (snd ?u)) = taskDocuments store2
      \<and> snd (snd ?u) = []" by blast
  have "fst (snd ?u) = store2"
    using e up by (intro store.equality) simp_all
  then have "?u = (Fail 500 ''Error updating task'', store2, [])"
    using r e by (metis prod.collapse)
  then show ?thesis using h1 h2 h3 nb by blast
qed

end
